theory Spec2Isabelle
  imports Complex_Main "HOL-Library.List_Lexorder" "HOL-Library.Char_ord" "HOL-Library.Multiset"
    "HOL-Library.Log_Nat"
begin

section \<open>Numbers and the wager record\<close>

text \<open>
  The ledger is a list of wager records (type \<open>Bet\<close> of the source). A JavaScript
  \<open>number\<close> is modelled by a rational. A number that is stored or typed (a stake, the
  odds, an override, a literal of the source) is held as the decimal it was written as
  and stands for the double nearest to it, \<open>toDouble\<close> of it. \<open>NaN\<close> and the infinities are
  left out (the one infinite constant of the source, the upper end of the last odds
  band, is an absent bound), and so are overflow and subnormal numbers.

  \<open>toDouble x\<close> rounds \<open>x\<close> to 53 significant bits, a tie going to the even
  significand, as IEEE-754 binary64 does. \<open>fmul\<close> is the product \<open>*\<close> of two numbers of
  the source: the exact product of the two doubles, rounded to a double. Sums of
  amounts are kept exact.

  \<open>toFixed n x\<close> is the value of the source expression \<open>+x.toFixed(n)\<close> for a number
  whose exact value is \<open>x\<close>: the decimal with \<open>n\<close> fraction digits nearest to \<open>x\<close>, the
  larger magnitude at a tie, the sign kept (ECMAScript \<open>Number.prototype.toFixed\<close>
  rounds the magnitude and prefixes the sign).
\<close>

definition toFixed :: "nat \<Rightarrow> rat \<Rightarrow> rat" where
  "toFixed n x =
     (if x < 0 then - (of_int \<lfloor>(- x) * 10 ^ n + 1 / 2\<rfloor> / 10 ^ n)
      else of_int \<lfloor>x * 10 ^ n + 1 / 2\<rfloor> / 10 ^ n)"

text \<open>
  The binary exponent of a positive rational: \<open>2 powi floorLog2 a \<le> a < 2 powi
  (floorLog2 a + 1)\<close>.
\<close>

definition floorLog2 :: "rat \<Rightarrow> int" where
  "floorLog2 a = (if 1 \<le> a then bitlen \<lfloor>a\<rfloor> - 1 else - bitlen (\<lceil>1 / a\<rceil> - 1))"

definition roundHalfEven :: "rat \<Rightarrow> int" where
  "roundHalfEven y =
     (let f = \<lfloor>y\<rfloor>; r = y - of_int f
      in if r < 1 / 2 then f else if 1 / 2 < r then f + 1 else if even f then f else f + 1)"

definition toDouble :: "rat \<Rightarrow> rat" where
  "toDouble x =
     (if x = 0 then 0
      else let e = floorLog2 \<bar>x\<bar> - 52;
               m = roundHalfEven (\<bar>x\<bar> / 2 powi e)
           in sgn x * of_int m * 2 powi e)"

definition fmul :: "rat \<Rightarrow> rat \<Rightarrow> rat" where
  "fmul x y = toDouble (toDouble x * toDouble y)"

datatype Sport = Football | Cricket | Tennis | Other

datatype BetStatus = Pending | Won | Lost

datatype FootballCategory = Goals | Corners | Result | DoubleChance | OtherCategory

text \<open>
  Optional fields (\<open>category?\<close>, \<open>returnOverride?\<close>, \<open>settledAt?\<close>) are options, \<open>None\<close>
  standing for \<open>undefined\<close> and \<open>null\<close>. The field \<open>id\<close> is named \<open>bet_id\<close>.
\<close>

record Bet =
  bet_id :: string
  date :: string
  description :: string
  sport :: Sport
  category :: "FootballCategory option"
  stake :: rat
  oddsDecimal :: rat
  status :: BetStatus
  returnOverride :: "rat option"
  settledAt :: "string option"
  createdAt :: string
  updatedAt :: string

subsection \<open>Return calculator\<close>

definition isSettled :: "BetStatus \<Rightarrow> bool" where
  "isSettled s = (s = Won \<or> s = Lost)"

definition defaultReturn :: "Bet \<Rightarrow> rat option" where
  "defaultReturn bet =
     (if status bet = Won then Some (toFixed 2 (fmul (stake bet) (oddsDecimal bet)))
      else if status bet = Lost then Some 0
      else None)"

text \<open>The ledger page's \<open>effectiveReturn\<close>.\<close>

definition effectiveReturn :: "Bet \<Rightarrow> rat option" where
  "effectiveReturn bet =
     (if isSettled (status bet) then
        (case returnOverride bet of
           Some v \<Rightarrow> Some (toFixed 2 (toDouble v))
         | None \<Rightarrow> defaultReturn bet)
      else None)"

text \<open>The insights page's \<open>effectiveReturn\<close>, written with an early return.\<close>

definition effectiveReturn_insights :: "Bet \<Rightarrow> rat option" where
  "effectiveReturn_insights b =
     (if \<not> isSettled (status b) then None
      else (case returnOverride b of
              Some v \<Rightarrow> Some (toFixed 2 (toDouble v))
            | None \<Rightarrow> defaultReturn b))"


subsection \<open>Strings and text fields\<close>

text \<open>
  A string is the list of its UTF-16 code units, each a character with a code below
  256: the model covers text of the Latin-1 range, and code units above it are outside
  the string type. Strings are compared by code unit, which is how the source's \<open><\<close>
  and \<open>>\<close> compare them; \<open>localeCompare\<close> is taken to be the same order, as it is on the
  digits and hyphens of a \<open>yyyy-mm-dd\<close> date.

  \<open>trim\<close> strips the white space of ECMAScript that lies in this range: tab, line
  feed, vertical tab, form feed, carriage return, space and the no-break space (160).
  \<open>toLowerCase\<close> maps the capital letters of the range, \<open>A\<close> to \<open>Z\<close> and 192 to 222
  without the multiplication sign 215, to the letter 32 code units above.
  \<open>includes_str t q\<close> is \<open>t.includes(q)\<close>.
\<close>

definition isWhiteSpace :: "char \<Rightarrow> bool" where
  "isWhiteSpace c = (let n = (of_char c :: nat) in n = 32 \<or> (9 \<le> n \<and> n \<le> 13) \<or> n = 160)"

definition trim :: "string \<Rightarrow> string" where
  "trim s = rev (dropWhile isWhiteSpace (rev (dropWhile isWhiteSpace s)))"

definition toLowerChar :: "char \<Rightarrow> char" where
  "toLowerChar c =
     (let n = (of_char c :: nat)
      in if (65 \<le> n \<and> n \<le> 90) \<or> (192 \<le> n \<and> n \<le> 222 \<and> n \<noteq> 215)
         then char_of (n + 32) else c)"

definition toLowerCase :: "string \<Rightarrow> string" where
  "toLowerCase s = map toLowerChar s"

fun includes_str :: "string \<Rightarrow> string \<Rightarrow> bool" where
  "includes_str [] q = (q = [])"
| "includes_str (c # cs) q = (take (length q) (c # cs) = q \<or> includes_str cs q)"

text \<open>
  An optional string used as a condition (\<open>filter.from && ...\<close>) counts when it is
  present and not empty.
\<close>

definition truthy :: "string option \<Rightarrow> bool" where
  "truthy s = (case s of None \<Rightarrow> False | Some t \<Rightarrow> t \<noteq> [])"

text \<open>
  \<open>parseNum\<close> trims its text, converts it with the runtime's \<open>Number(...)\<close> and falls
  back when the result is not finite. The conversion is a parameter \<open>toNumber\<close>:
  \<open>Some v\<close> for a text that converts to the finite double \<open>v\<close>, \<open>None\<close> otherwise.
\<close>

definition parseNum :: "(string \<Rightarrow> rat option) \<Rightarrow> string \<Rightarrow> rat \<Rightarrow> rat" where
  "parseNum toNumber n fallback =
     (case toNumber (trim n) of Some v \<Rightarrow> v | None \<Rightarrow> fallback)"

text \<open>
  \<open>decimalNumber\<close> is \<open>Number(...)\<close> on plain decimal texts (an optional sign, digits,
  an optional fraction; the empty text is zero): the double nearest to the decimal. It
  serves to evaluate the operations at concrete form texts; exponents and radix
  prefixes are not covered by it.
\<close>

definition isDigit :: "char \<Rightarrow> bool" where
  "isDigit c = (let n = (of_char c :: nat) in 48 \<le> n \<and> n \<le> 57)"

definition digitsValue :: "string \<Rightarrow> nat" where
  "digitsValue ds = foldl (\<lambda>acc c. 10 * acc + (of_char c - 48)) 0 ds"

definition unsignedDecimal :: "string \<Rightarrow> rat option" where
  "unsignedDecimal r =
     (let ip = takeWhile isDigit r; rest = dropWhile isDigit r in
      case rest of
        [] \<Rightarrow> if ip = [] then None else Some (of_nat (digitsValue ip))
      | c # fp \<Rightarrow>
          if c = CHR ''.'' \<and> list_all isDigit fp \<and> (ip \<noteq> [] \<or> fp \<noteq> [])
          then Some (of_nat (digitsValue ip) + of_nat (digitsValue fp) / 10 ^ length fp)
          else None)"

definition decimalNumber :: "string \<Rightarrow> rat option" where
  "decimalNumber s =
     (case s of
        [] \<Rightarrow> Some 0
      | c # r \<Rightarrow>
          if c = CHR ''-'' then map_option (\<lambda>v. toDouble (- v)) (unsignedDecimal r)
          else if c = CHR ''+'' then map_option toDouble (unsignedDecimal r)
          else map_option toDouble (unsignedDecimal s))"

subsection \<open>Session state of the ledger page\<close>

text \<open>
  The component state the operations touch: the record list, the single slot of the
  last deleted record, the add form, the edit values, the filter and the profit target
  (\<open>state.targetProfit\<close>). Field names of the form, the edit values and the filter carry
  a prefix, since the record type \<open>Bet\<close> owns the plain names.
\<close>

record Form =
  form_date :: string
  form_description :: string
  form_sport :: Sport
  form_category :: "FootballCategory option"
  form_stake :: string
  form_oddsDecimal :: string
  form_status :: BetStatus
  form_returnOverride :: "string option"

record EditVals =
  edit_stake :: string
  edit_oddsDecimal :: string
  edit_status :: BetStatus
  edit_category :: "FootballCategory option"
  edit_returnOverride :: "string option"

text \<open>In a filter, \<open>None\<close> for the sport or the status is the source's \<open>"All"\<close>.\<close>

record Criteria =
  flt_sport :: "Sport option"
  flt_status :: "BetStatus option"
  flt_from :: "string option"
  flt_to :: "string option"
  flt_search :: string

record Tracker =
  bets :: "Bet list"
  lastDeleted :: "Bet option"
  form :: Form
  editingId :: "string option"
  editVals :: EditVals
  filter_crit :: Criteria
  targetProfit :: rat

subsection \<open>Mutating operations\<close>

definition addDisabled :: "(string \<Rightarrow> rat option) \<Rightarrow> Form \<Rightarrow> bool" where
  "addDisabled toNumber f =
     (trim (form_description f) = [] \<or> parseNum toNumber (form_stake f) 0 \<le> 0
      \<or> parseNum toNumber (form_oddsDecimal f) 0 \<le> 1)"

text \<open>\<open>newId\<close> is the value of \<open>uid()\<close> and \<open>now\<close> the current ISO timestamp.\<close>

definition addBet :: "(string \<Rightarrow> rat option) \<Rightarrow> string \<Rightarrow> string \<Rightarrow> Tracker \<Rightarrow> Tracker" where
  "addBet toNumber newId now t =
     (if addDisabled toNumber (form t) then t
      else
        let f = form t;
            bet = \<lparr> bet_id = newId,
                    date = form_date f,
                    description = trim (form_description f),
                    sport = form_sport f,
                    category = (if form_sport f = Football then form_category f else None),
                    stake = toFixed 2 (parseNum toNumber (form_stake f) 0),
                    oddsDecimal = toFixed 3 (parseNum toNumber (form_oddsDecimal f) 0),
                    status = form_status f,
                    returnOverride =
                      (case form_returnOverride f of
                         None \<Rightarrow> None
                       | Some s \<Rightarrow> if s \<noteq> [] then Some (toFixed 2 (parseNum toNumber s 0)) else None),
                    settledAt = (if isSettled (form_status f) then Some now else None),
                    createdAt = now,
                    updatedAt = now \<rparr>
        in t\<lparr> bets := bet # bets t,
               form := f\<lparr> form_description := [], form_status := Pending \<rparr> \<rparr>)"

definition saveEdit :: "(string \<Rightarrow> rat option) \<Rightarrow> string \<Rightarrow> string \<Rightarrow> Tracker \<Rightarrow> Tracker" where
  "saveEdit toNumber now i t =
     t\<lparr> bets :=
          map (\<lambda>b.
            if bet_id b \<noteq> i then b
            else
              let nextStatus = edit_status (editVals t) in
              b\<lparr> stake := toFixed 2 (parseNum toNumber (edit_stake (editVals t)) 0),
                 oddsDecimal := toFixed 3 (parseNum toNumber (edit_oddsDecimal (editVals t)) 0),
                 status := nextStatus,
                 category := (if sport b = Football then edit_category (editVals t) else None),
                 returnOverride :=
                   (case edit_returnOverride (editVals t) of
                      None \<Rightarrow> None
                    | Some s \<Rightarrow> if s \<noteq> [] then Some (toFixed 2 (parseNum toNumber s 0)) else None),
                 settledAt :=
                   (if isSettled (status b) \<or> isSettled nextStatus then Some now else None),
                 updatedAt := now \<rparr>) (bets t),
        editingId := None \<rparr>"

definition deleteBet :: "string \<Rightarrow> Tracker \<Rightarrow> Tracker" where
  "deleteBet i t =
     t\<lparr> bets := filter (\<lambda>b. bet_id b \<noteq> i) (bets t),
        lastDeleted := find (\<lambda>b. bet_id b = i) (bets t) \<rparr>"

definition undoDelete :: "Tracker \<Rightarrow> Tracker" where
  "undoDelete t =
     (case lastDeleted t of
        None \<Rightarrow> t
      | Some d \<Rightarrow> t\<lparr> bets := d # bets t, lastDeleted := None \<rparr>)"

text \<open>The timer set by \<open>deleteBet\<close> fires after ten seconds and empties the slot.\<close>

definition undoExpired :: "Tracker \<Rightarrow> Tracker" where
  "undoExpired t = t\<lparr> lastDeleted := None \<rparr>"

subsection \<open>Ledger page: totals, cumulative series, filter\<close>

text \<open>
  \<open>xs.reduce((s, b) => s + f(b), 0)\<close> is \<open>foldl (\<lambda>s b. s + f b) 0 xs\<close>, and
  \<open>effectiveReturn(b) ?? 0\<close> is \<open>returnOr0 b\<close>, on both pages (their two definitions of
  \<open>effectiveReturn\<close> are shown equal below). Fields of result objects carry a prefix
  per object type, since several of them share names in the source.
\<close>

definition returnOr0 :: "Bet \<Rightarrow> rat" where
  "returnOr0 b = (case effectiveReturn b of Some r \<Rightarrow> r | None \<Rightarrow> 0)"

record Totals =
  tot_totalStaked :: rat
  tot_totalReturned :: rat
  tot_profit :: rat
  tot_winRate :: rat
  tot_progress :: rat

definition clamp01 :: "rat \<Rightarrow> rat" where
  "clamp01 v = max 0 (min 1 v)"

definition totals :: "Bet list \<Rightarrow> rat \<Rightarrow> Totals" where
  "totals bs target =
     (let settled = filter (\<lambda>b. isSettled (status b)) bs;
          totalStaked = toFixed 2 (foldl (\<lambda>s b. s + stake b) 0 bs);
          totalReturned = toFixed 2 (foldl (\<lambda>s b. s + returnOr0 b) 0 settled);
          profit = toFixed 2 (totalReturned - foldl (\<lambda>s b. s + stake b) 0 settled);
          winRate = (if length settled \<noteq> 0
                     then of_nat (length (filter (\<lambda>b. status b = Won) settled))
                          / of_nat (length settled)
                     else 0);
          progress = (if target > 0 then clamp01 (profit / target) else 0)
      in \<lparr> tot_totalStaked = totalStaked, tot_totalReturned = totalReturned,
           tot_profit = profit, tot_winRate = winRate, tot_progress = progress \<rparr>)"

text \<open>The totals shown for a session are those of its whole record list.\<close>

definition tracker_totals :: "Tracker \<Rightarrow> Totals" where
  "tracker_totals t = totals (bets t) (targetProfit t)"

record Point =
  pt_date :: string
  pt_value :: rat

text \<open>
  The \<open>for\<close> loop of \<open>cumulative\<close>: \<open>running\<close> and \<open>points\<close> are its two variables.
  \<open>sort_key date\<close> is the stable ascending sort that \<open>Array.prototype.sort\<close> performs
  with the comparator \<open>a.date.localeCompare(b.date)\<close>.
\<close>

fun cumulative_loop :: "Bet list \<Rightarrow> rat \<Rightarrow> Point list \<Rightarrow> Point list" where
  "cumulative_loop [] running points = points"
| "cumulative_loop (b # settled) running points =
     (let ret = returnOr0 b;
          running' = running + (ret - stake b)
      in cumulative_loop settled running'
           (points @ [\<lparr> pt_date = date b, pt_value = toFixed 2 running' \<rparr>]))"

definition cumulative :: "Bet list \<Rightarrow> Point list" where
  "cumulative bs =
     (let settled = sort_key date (filter (\<lambda>b. isSettled (status b)) bs);
          points = cumulative_loop settled 0 []
      in if points \<noteq> [] then \<lparr> pt_date = pt_date (hd points), pt_value = 0 \<rparr> # points
         else points)"

text \<open>
  A stable sort with a descending comparator (\<open>b.date.localeCompare(a.date)\<close>,
  \<open>b.profit - a.profit\<close>): equal keys keep their input order.
\<close>

definition sort_desc_key :: "('a \<Rightarrow> 'k::linorder) \<Rightarrow> 'a list \<Rightarrow> 'a list" where
  "sort_desc_key f xs = rev (sort_key f (rev xs))"

definition sportName :: "Sport \<Rightarrow> string" where
  "sportName s = (case s of Football \<Rightarrow> ''Football'' | Cricket \<Rightarrow> ''Cricket''
                  | Tennis \<Rightarrow> ''Tennis'' | Other \<Rightarrow> ''Other'')"

definition statusName :: "BetStatus \<Rightarrow> string" where
  "statusName s = (case s of Pending \<Rightarrow> ''Pending'' | Won \<Rightarrow> ''Won'' | Lost \<Rightarrow> ''Lost'')"

text \<open>The filter callback of the ledger page with the search box.\<close>

definition passes_search :: "Criteria \<Rightarrow> Bet \<Rightarrow> bool" where
  "passes_search flt b =
     (if flt_sport flt \<noteq> None \<and> Some (sport b) \<noteq> flt_sport flt then False
      else if flt_status flt \<noteq> None \<and> Some (status b) \<noteq> flt_status flt then False
      else if truthy (flt_from flt) \<and> date b < the (flt_from flt) then False
      else if truthy (flt_to flt) \<and> date b > the (flt_to flt) then False
      else if trim (flt_search flt) \<noteq> [] then
        (let q = toLowerCase (flt_search flt);
             text = toLowerCase (description b @ '' '' @ sportName (sport b) @ '' ''
                                 @ statusName (status b))
         in if \<not> includes_str text q then False else True)
      else True)"

definition filteredBets_search :: "Criteria \<Rightarrow> Bet list \<Rightarrow> Bet list" where
  "filteredBets_search flt bs = sort_desc_key date (filter (passes_search flt) bs)"

text \<open>The filter callback of the ledger page whose filter is kept in the URL.\<close>

definition passes :: "Criteria \<Rightarrow> Bet \<Rightarrow> bool" where
  "passes flt b =
     (if flt_sport flt \<noteq> None \<and> Some (sport b) \<noteq> flt_sport flt then False
      else if flt_status flt \<noteq> None \<and> Some (status b) \<noteq> flt_status flt then False
      else if truthy (flt_from flt) \<and> date b < the (flt_from flt) then False
      else if truthy (flt_to flt) \<and> date b > the (flt_to flt) then False
      else True)"

definition filteredBets :: "Criteria \<Rightarrow> Bet list \<Rightarrow> Bet list" where
  "filteredBets flt bs = sort_desc_key date (filter (passes flt) bs)"

text \<open>The filter of the insights page: sport and date range, no sort.\<close>

definition passes_insights :: "Criteria \<Rightarrow> Bet \<Rightarrow> bool" where
  "passes_insights flt b =
     (if flt_sport flt \<noteq> None \<and> Some (sport b) \<noteq> flt_sport flt then False
      else if truthy (flt_from flt) \<and> date b < the (flt_from flt) then False
      else if truthy (flt_to flt) \<and> date b > the (flt_to flt) then False
      else True)"

definition filteredBets_insights :: "Criteria \<Rightarrow> Bet list \<Rightarrow> Bet list" where
  "filteredBets_insights flt bs = filter (passes_insights flt) bs"

text \<open>The filter a fresh page starts with, and to which \<open>Clear filters\<close> resets.\<close>

definition defaultCriteria :: Criteria where
  "defaultCriteria = \<lparr> flt_sport = None, flt_status = None, flt_from = None,
                        flt_to = None, flt_search = [] \<rparr>"

subsection \<open>Insights page: key metrics\<close>

definition median :: "rat list \<Rightarrow> rat" where
  "median nums =
     (if length nums = 0 then 0
      else let arr = sort nums; mid = length arr div 2
           in if length arr mod 2 \<noteq> 0 then arr ! mid
              else (arr ! (mid - 1) + arr ! mid) / 2)"

record Metrics =
  met_totalBets :: nat
  met_settled :: nat
  met_pending :: nat
  met_stakedAll :: rat
  met_stakedSettled :: rat
  met_returned :: rat
  met_profit :: rat
  met_hitRate :: rat
  met_roi :: rat
  met_avgOdds :: rat
  met_avgStake :: rat
  met_medStake :: rat
  met_profitPerBet :: rat
  met_pendingStake :: rat
  met_pendingPotentialReturn :: rat

text \<open>The argument of \<open>metrics\<close> and of the breakdowns below is the filtered list.\<close>

definition metrics :: "Bet list \<Rightarrow> Metrics" where
  "metrics fb =
     (let settled = filter (\<lambda>b. isSettled (status b)) fb;
          pending = filter (\<lambda>b. status b = Pending) fb;
          stakedAll = toFixed 2 (foldl (\<lambda>s b. s + stake b) 0 fb);
          stakedSettled = toFixed 2 (foldl (\<lambda>s b. s + stake b) 0 settled);
          returned = toFixed 2 (foldl (\<lambda>s b. s + returnOr0 b) 0 settled);
          profit = toFixed 2 (returned - stakedSettled);
          wins = length (filter (\<lambda>b. status b = Won) settled);
          hitRate = (if length settled \<noteq> 0 then of_nat wins / of_nat (length settled) else 0);
          roi = (if stakedSettled > 0 then profit / stakedSettled else 0);
          avgOdds = (if length settled \<noteq> 0
                     then toFixed 2 (foldl (\<lambda>s b. s + oddsDecimal b) 0 settled
                                     / of_nat (length settled))
                     else 0);
          avgStake = (if length fb \<noteq> 0
                      then toFixed 2 (foldl (\<lambda>s b. s + stake b) 0 fb / of_nat (length fb))
                      else 0);
          medStake = toFixed 2 (median (map stake fb));
          profitPerBet = (if length settled \<noteq> 0
                          then toFixed 2 (profit / of_nat (length settled)) else 0);
          pendingStake = toFixed 2 (foldl (\<lambda>s b. s + stake b) 0 pending);
          pendingPotentialReturn =
            toFixed 2 (foldl (\<lambda>s b. s + stake b * oddsDecimal b) 0 pending)
      in \<lparr> met_totalBets = length fb, met_settled = length settled,
           met_pending = length pending, met_stakedAll = stakedAll,
           met_stakedSettled = stakedSettled, met_returned = returned,
           met_profit = profit, met_hitRate = hitRate, met_roi = roi,
           met_avgOdds = avgOdds, met_avgStake = avgStake, met_medStake = medStake,
           met_profitPerBet = profitPerBet, met_pendingStake = pendingStake,
           met_pendingPotentialReturn = pendingPotentialReturn \<rparr>)"

subsection \<open>Insights page: breakdowns by sport, category and weekday\<close>

text \<open>
  A JavaScript \<open>Map\<close> is an association list in insertion order: \<open>map_get\<close> reads a key,
  \<open>map_set\<close> overwrites the entry of a present key in place and appends a new one.
\<close>

record Stat =
  stat_staked :: rat
  stat_returned :: rat
  stat_profit :: rat
  stat_settled :: nat
  stat_wins :: nat

definition zeroStat :: Stat where
  "zeroStat = \<lparr> stat_staked = 0, stat_returned = 0, stat_profit = 0,
                 stat_settled = 0, stat_wins = 0 \<rparr>"

fun map_get :: "('k \<times> 'v) list \<Rightarrow> 'k \<Rightarrow> 'v option" where
  "map_get [] k = None"
| "map_get ((k', v) # m) k = (if k' = k then Some v else map_get m k)"

fun map_set :: "('k \<times> 'v) list \<Rightarrow> 'k \<Rightarrow> 'v \<Rightarrow> ('k \<times> 'v) list" where
  "map_set [] k v = [(k, v)]"
| "map_set ((k', v') # m) k v =
     (if k' = k then (k, v) # m else (k', v') # map_set m k v)"

definition getOrZero :: "('k \<times> Stat) list \<Rightarrow> 'k \<Rightarrow> Stat" where
  "getOrZero m k = (case map_get m k of Some v \<Rightarrow> v | None \<Rightarrow> zeroStat)"

text \<open>The updates of \<open>cur\<close> for one settled record.\<close>

definition addSettled :: "Stat \<Rightarrow> Bet \<Rightarrow> Stat" where
  "addSettled cur b =
     (let ret = returnOr0 b in
      \<lparr> stat_staked = stat_staked cur + stake b,
        stat_returned = stat_returned cur + ret,
        stat_profit = stat_profit cur + (ret - stake b),
        stat_settled = stat_settled cur + 1,
        stat_wins = (if status b = Won then stat_wins cur + 1 else stat_wins cur) \<rparr>)"

text \<open>
  The loop body shared by \<open>bySport\<close> and \<open>byCategory\<close>: every record creates or rewrites
  the entry of its key, and only a settled record changes the figures.
\<close>

definition group_step :: "(Bet \<Rightarrow> 'k) \<Rightarrow> Bet \<Rightarrow> ('k \<times> Stat) list \<Rightarrow> ('k \<times> Stat) list" where
  "group_step keyOf b m =
     (let cur = getOrZero m (keyOf b);
          cur' = (if isSettled (status b) then addSettled cur b else cur)
      in map_set m (keyOf b) cur')"

record 'k Row =
  row_key :: 'k
  row_staked :: rat
  row_returned :: rat
  row_profit :: rat
  row_winRate :: rat

record 'k WeekdayRow = "'k Row" +
  row_roi :: rat

definition toRow :: "'k \<times> Stat \<Rightarrow> 'k Row" where
  "toRow e =
     (case e of (k, v) \<Rightarrow>
        \<lparr> row_key = k,
          row_staked = toFixed 2 (stat_staked v),
          row_returned = toFixed 2 (stat_returned v),
          row_profit = toFixed 2 (stat_profit v),
          row_winRate = (if stat_settled v > 0
                         then of_nat (stat_wins v) / of_nat (stat_settled v) else 0) \<rparr>)"

text \<open>
  Sorting rows with the comparator \<open>b.profit - a.profit\<close> is the stable descending sort
  by profit.
\<close>

definition bySport :: "Bet list \<Rightarrow> Sport Row list" where
  "bySport fb = sort_desc_key row_profit (map toRow (fold (group_step sport) fb []))"

datatype FootballCategoryKey = Cat FootballCategory | Uncategorised

definition categoryKey :: "Bet \<Rightarrow> FootballCategoryKey" where
  "categoryKey b = (case category b of Some c \<Rightarrow> Cat c | None \<Rightarrow> Uncategorised)"

definition byCategory :: "Bet list \<Rightarrow> FootballCategoryKey Row list" where
  "byCategory fb =
     (let fbl = filter (\<lambda>b. sport b = Football) fb
      in sort_desc_key row_profit (map toRow (fold (group_step categoryKey) fbl [])))"

text \<open>
  \<open>dayName\<close> splits the date, builds a local \<open>Date\<close> and indexes the seven names with
  \<open>getDay()\<close>. The runtime part is the parameter \<open>getDay\<close>: \<open>Some k\<close> with \<open>k < 7\<close> for a
  calendar date, \<open>None\<close> when the date does not parse (\<open>NaN\<close>); the name is then
  \<open>undefined\<close>, modelled by \<open>None\<close>.
\<close>

definition dayNames :: "string list" where
  "dayNames = [''Sun'', ''Mon'', ''Tue'', ''Wed'', ''Thu'', ''Fri'', ''Sat'']"

definition dayName :: "(string \<Rightarrow> nat option) \<Rightarrow> string \<Rightarrow> string option" where
  "dayName getDay isoDate =
     (case getDay isoDate of
        None \<Rightarrow> None
      | Some k \<Rightarrow> if k < length dayNames then Some (dayNames ! k) else None)"

definition weekday_step ::
    "(string \<Rightarrow> nat option) \<Rightarrow> Bet \<Rightarrow> (string option \<times> Stat) list \<Rightarrow> (string option \<times> Stat) list" where
  "weekday_step getDay b m =
     (if \<not> isSettled (status b) then m
      else let k = dayName getDay (date b);
               cur = getOrZero m k
           in map_set m k (addSettled cur b))"

definition weekdayRow :: "(string option \<times> Stat) list \<Rightarrow> string \<Rightarrow> string WeekdayRow" where
  "weekdayRow m day =
     (let v = getOrZero m (Some day);
          winRate = (if stat_settled v > 0
                     then of_nat (stat_wins v) / of_nat (stat_settled v) else 0);
          roi = (if stat_staked v > 0 then stat_profit v / stat_staked v else 0)
      in \<lparr> row_key = day,
           row_staked = toFixed 2 (stat_staked v),
           row_returned = toFixed 2 (stat_returned v),
           row_profit = toFixed 2 (stat_profit v),
           row_winRate = winRate,
           row_roi = roi \<rparr>)"

definition byWeekday :: "(string \<Rightarrow> nat option) \<Rightarrow> Bet list \<Rightarrow> string WeekdayRow list" where
  "byWeekday getDay fb =
     (let m = fold (weekday_step getDay) fb []
      in sort_desc_key row_profit (map (weekdayRow m) dayNames))"

subsection \<open>Insights page: odds bands\<close>

text \<open>The upper bound \<open>Infinity\<close> of the last band is \<open>None\<close>.\<close>

record Band =
  band_label :: string
  band_min :: rat
  band_max :: "rat option"

definition bands :: "Band list" where
  "bands =
     [\<lparr> band_label = ''1.01 to 1.49'', band_min = 1.01, band_max = Some 1.49 \<rparr>,
      \<lparr> band_label = ''1.50 to 1.99'', band_min = 1.5, band_max = Some 1.99 \<rparr>,
      \<lparr> band_label = ''2.00 to 2.99'', band_min = 2, band_max = Some 2.99 \<rparr>,
      \<lparr> band_label = ''3.00 to 4.99'', band_min = 3, band_max = Some 4.99 \<rparr>,
      \<lparr> band_label = ''5.00 or more'', band_min = 5, band_max = None \<rparr>]"

record BandRow =
  ob_band :: string
  ob_bets :: nat
  ob_wins :: nat
  ob_avgOdds :: rat
  ob_implied :: rat
  ob_winRate :: rat
  ob_roi :: rat
  ob_profit :: rat

definition withinBand :: "Band \<Rightarrow> Bet \<Rightarrow> bool" where
  "withinBand band b =
     (oddsDecimal b \<ge> band_min band
      \<and> (case band_max band of None \<Rightarrow> True | Some m \<Rightarrow> oddsDecimal b \<le> m))"

definition bandRow :: "Bet list \<Rightarrow> Band \<Rightarrow> BandRow" where
  "bandRow settled band =
     (let inBand = filter (withinBand band) settled;
          n = length inBand
      in if n = 0 then
           \<lparr> ob_band = band_label band, ob_bets = 0, ob_wins = 0, ob_avgOdds = 0,
             ob_implied = 0, ob_winRate = 0, ob_roi = 0, ob_profit = 0 \<rparr>
         else
           let wins = length (filter (\<lambda>b. status b = Won) inBand);
               avgOdds = foldl (\<lambda>s b. s + oddsDecimal b) 0 inBand / of_nat n;
               implied = 1 / avgOdds;
               winRate = of_nat wins / of_nat n;
               staked = foldl (\<lambda>s b. s + stake b) 0 inBand;
               returned = foldl (\<lambda>s b. s + returnOr0 b) 0 inBand;
               profit = toFixed 2 (returned - staked);
               roi = (if staked > 0 then profit / staked else 0)
           in \<lparr> ob_band = band_label band, ob_bets = n, ob_wins = wins,
                ob_avgOdds = avgOdds, ob_implied = implied, ob_winRate = winRate,
                ob_roi = roi, ob_profit = profit \<rparr>)"

definition oddsBands :: "Bet list \<Rightarrow> BandRow list" where
  "oddsBands fb =
     (let settled = filter (\<lambda>b. isSettled (status b)) fb
      in map (bandRow settled) bands)"

subsection \<open>Odds outside every band\<close>

text \<open>
  The odds that lie below the first band or strictly between two neighbouring bands.
\<close>

definition inGap :: "rat \<Rightarrow> bool" where
  "inGap x = (x < 1.01 \<or> (1.49 < x \<and> x < 1.5) \<or> (1.99 < x \<and> x < 2)
              \<or> (2.99 < x \<and> x < 3) \<or> (4.99 < x \<and> x < 5))"

subsection \<open>Sample records and a sample session\<close>

text \<open>
  The two records the ledger page seeds on its first run, two further settled records,
  the initial add form and edit values, and a session holding three of the records.
\<close>

definition ts0 :: string where
  "ts0 = ''2025-03-01T10:00:00.000Z''"

definition seedLost :: Bet where
  "seedLost = \<lparr> bet_id = ''seed1'', date = ''2025-03-01'', description = ''Chelsea BTTS'',
      sport = Football, category = None, stake = 5, oddsDecimal = 1.53, status = Lost,
      returnOverride = Some 0, settledAt = Some ts0, createdAt = ts0, updatedAt = ts0 \<rparr>"

definition seedPending :: Bet where
  "seedPending = \<lparr> bet_id = ''seed2'', date = ''2025-03-01'',
      description = ''ATP match winner'', sport = Tennis, category = None, stake = 10,
      oddsDecimal = 2.1, status = Pending, returnOverride = None, settledAt = None,
      createdAt = ts0, updatedAt = ts0 \<rparr>"

definition wonBet :: Bet where
  "wonBet = \<lparr> bet_id = ''w1'', date = ''2025-02-14'',
      description = ''Villa race to 9 corners'', sport = Football, category = Some Corners,
      stake = 100, oddsDecimal = 2.5, status = Won, returnOverride = None,
      settledAt = Some ts0, createdAt = ts0, updatedAt = ts0 \<rparr>"

definition gapBet :: Bet where
  "gapBet = \<lparr> bet_id = ''g1'', date = ''2025-02-20'', description = ''Set betting'',
      sport = Tennis, category = None, stake = 3.33, oddsDecimal = 1.495, status = Won,
      returnOverride = None, settledAt = Some ts0, createdAt = ts0, updatedAt = ts0 \<rparr>"

definition initialForm :: Form where
  "initialForm = \<lparr> form_date = ''2025-03-01'', form_description = [],
      form_sport = Football, form_category = Some Result, form_stake = ''5'',
      form_oddsDecimal = ''1.50'', form_status = Pending, form_returnOverride = None \<rparr>"

definition initialEditVals :: EditVals where
  "initialEditVals = \<lparr> edit_stake = [], edit_oddsDecimal = [], edit_status = Pending,
      edit_category = None, edit_returnOverride = None \<rparr>"

definition sampleTracker :: Tracker where
  "sampleTracker = \<lparr> bets = [wonBet, seedLost, seedPending], lastDeleted = None,
      form = initialForm, editingId = None, editVals = initialEditVals,
      filter_crit = defaultCriteria, targetProfit = 100 \<rparr>"

definition ts1 :: string where
  "ts1 = ''2025-03-02T09:00:00.000Z''"

text \<open>
  Add forms and edit values a user can type. \<open>pendingEdit\<close> is what the edit row of the
  seeded Lost record holds once its status is switched to Pending.
\<close>

definition gapForm :: Form where
  "gapForm = initialForm \<lparr> form_description := ''Set betting'', form_sport := Tennis,
      form_stake := ''3.33'', form_oddsDecimal := ''1.495'', form_status := Won \<rparr>"

definition tinyForm :: Form where
  "tinyForm = initialForm \<lparr> form_description := ''Late goal'', form_stake := ''0.004'',
      form_oddsDecimal := ''1.0004'' \<rparr>"

definition pendingEdit :: EditVals where
  "pendingEdit = \<lparr> edit_stake = ''5'', edit_oddsDecimal = ''1.53'', edit_status = Pending,
      edit_category = None, edit_returnOverride = Some ''0'' \<rparr>"

definition zeroEdit :: EditVals where
  "zeroEdit = \<lparr> edit_stake = ''0'', edit_oddsDecimal = ''1'', edit_status = Pending,
      edit_category = None, edit_returnOverride = None \<rparr>"

subsection \<open>Invariants of the data model\<close>

definition validBet :: "Bet \<Rightarrow> bool" where
  "validBet b = (oddsDecimal b > 1 \<and> stake b > 0)"

subsection \<open>Sample filters\<close>

definition tennisCriteria :: Criteria where
  "tennisCriteria = \<lparr> flt_sport = Some Tennis, flt_status = None,
      flt_from = Some ''2025-02-01'', flt_to = Some ''2025-03-31'', flt_search = [] \<rparr>"

definition bttsCriteria :: Criteria where
  "bttsCriteria = defaultCriteria \<lparr> flt_search := ''BTTS'' \<rparr>"

subsection \<open>Records whose return lies at a rounding tie\<close>



subsection \<open>Notions of the specification\<close>

text \<open>
  The words of the specification that the properties below use: an amount with at most
  two decimal places, the profit of a record (effective return minus stake), and the
  settled records in ascending order of date.
\<close>

text \<open>
  Two characters are the same letter, case ignored, when they are equal or one is a
  capital letter and the other the small letter to it.
\<close>

definition sameIgnoringCase :: "char \<Rightarrow> char \<Rightarrow> bool" where
  "sameIgnoringCase c d =
     (let m = (of_char c :: nat); n = (of_char d :: nat)
      in c = d
         \<or> (n = m + 32 \<and> ((65 \<le> m \<and> m \<le> 90) \<or> (192 \<le> m \<and> m \<le> 222 \<and> m \<noteq> 215)))
         \<or> (m = n + 32 \<and> ((65 \<le> n \<and> n \<le> 90) \<or> (192 \<le> n \<and> n \<le> 222 \<and> n \<noteq> 215))))"

definition twoPlaces :: "rat \<Rightarrow> bool" where
  "twoPlaces x = (toFixed 2 x = x)"

definition profitOf :: "Bet \<Rightarrow> rat" where
  "profitOf b = returnOr0 b - stake b"

definition settledByDate :: "Bet list \<Rightarrow> Bet list" where
  "settledByDate bs = sort_key date (filter (\<lambda>b. isSettled (status b)) bs)"

subsection \<open>Weekdays of the sample dates\<close>

text \<open>
  What \<open>getDay()\<close> gives for the dates of the sample records (14 February 2025 is a
  Friday, 20 February a Thursday, 1 March a Saturday); a table for these dates only.
\<close>

definition sampleGetDay :: "string \<Rightarrow> nat option" where
  "sampleGetDay d =
     (if d = ''2025-02-14'' then Some 5
      else if d = ''2025-02-20'' then Some 4
      else if d = ''2025-03-01'' then Some 6
      else None)"

section \<open>Properties\<close>

subsection \<open>Rounding\<close>

lemma floor_rat_numeral [simp]:
  "\<lfloor>numeral a / numeral b :: rat\<rfloor> = numeral a div numeral b"
  using floor_divide_of_int_eq [of "numeral a" "numeral b", where ?'a = rat] by simp

lemma floor_rat_one_numeral [simp]: "\<lfloor>1 / numeral b :: rat\<rfloor> = 1 div numeral b"
  using floor_divide_of_int_eq [of 1 "numeral b", where ?'a = rat] by simp

lemma foldl_plus_sum_list: "foldl (\<lambda>s b. s + f b) a xs = (a::rat) + sum_list (map f xs)"
  by (induction xs arbitrary: a) (simp_all add: add.assoc)

lemma toFixed_nonneg_half_up:
  "0 \<le> x \<Longrightarrow> toFixed 2 x = of_int \<lfloor>x * 100 + 1 / 2\<rfloor> / 100"
  by (simp add: toFixed_def)

lemma toFixed2_of_int: "toFixed 2 (of_int k / 100) = of_int k / 100"
proof (cases "k < 0")
  case True
  then have "(of_int k / 100 :: rat) < 0"
    by (simp add: divide_neg_pos)
  moreover have "\<lfloor>(of_int (- k) :: rat) + 1 / 2\<rfloor> = - k"
    by (subst floor_add_int [symmetric, of _ "- k"] | simp)+
  ultimately show ?thesis
    by (simp add: toFixed_def)
next
  case False
  then have "\<not> (of_int k / 100 :: rat) < 0"
    by (simp add: not_less)
  moreover have "\<lfloor>(of_int k :: rat) + 1 / 2\<rfloor> = k"
    by (subst floor_add_int [symmetric, of _ "k"] | simp)+
  ultimately show ?thesis
    by (simp add: toFixed_def)
qed

lemma toFixed2_cents: "\<exists>k::int. toFixed 2 x = of_int k / 100"
proof (cases "x < 0")
  case True
  then have "toFixed 2 x = of_int (- \<lfloor>(- x) * 100 + 1 / 2\<rfloor>) / 100"
    by (simp add: toFixed_def)
  then show ?thesis by blast
next
  case False
  then have "toFixed 2 x = of_int \<lfloor>x * 100 + 1 / 2\<rfloor> / 100"
    by (simp add: toFixed_def)
  then show ?thesis by blast
qed










lemma effectiveReturn_insights_eq: "effectiveReturn_insights b = effectiveReturn b"
  by (simp add: effectiveReturn_insights_def effectiveReturn_def)



subsection \<open>Totals and goal progress\<close>

lemma totals_profit:
  "tot_profit (totals bs target) =
     toFixed 2 (toFixed 2 (sum_list (map returnOr0 (filter (\<lambda>b. isSettled (status b)) bs)))
                - sum_list (map stake (filter (\<lambda>b. isSettled (status b)) bs)))"
  unfolding totals_def Let_def by (simp add: foldl_plus_sum_list)

lemma totals_progress:
  "tot_progress (totals bs target) =
     (if target > 0 then clamp01 (tot_profit (totals bs target) / target) else 0)"
  unfolding totals_def Let_def by simp

lemma wonBet_fields:
  "status wonBet = Won" "stake wonBet = 100" "returnOr0 wonBet = 250"
  by code_simp+

lemma seedLost_fields:
  "status seedLost = Lost" "stake seedLost = 5" "returnOr0 seedLost = 0"
  by code_simp+

lemma seedPending_fields:
  "status seedPending = Pending" "stake seedPending = 10" "returnOr0 seedPending = 0"
  by (simp_all add: seedPending_def returnOr0_def effectiveReturn_def isSettled_def)

lemma totals_wonBet: "tot_profit (totals [wonBet] 100) = 150"
  by (simp add: totals_profit wonBet_fields isSettled_def toFixed_def)

text \<open>
  Claim C5. Goal progress is the settled profit divided by the profit target, clamped
  to the interval from 0 to 1, when the target is positive, and 0 otherwise. The
  progress of a session is that of the totals of its whole record list and its target:
  its profit is taken over all settled records of the session, whatever the view filter
  is. A profit of 150 against a target of 100 gives progress 1.
\<close>

theorem goal_progress:
  "tot_progress (totals bs target) =
     (if target > 0 then max 0 (min 1 (tot_profit (totals bs target) / target)) else 0)
   \<and> tot_profit (totals bs target) =
       toFixed 2 (toFixed 2 (sum_list (map returnOr0 (filter (\<lambda>b. isSettled (status b)) bs)))
                  - sum_list (map stake (filter (\<lambda>b. isSettled (status b)) bs)))
   \<and> tracker_totals t = totals (bets t) (targetProfit t)
   \<and> tot_progress (tracker_totals t) =
       (if targetProfit t > 0
        then max 0 (min 1 (tot_profit (tracker_totals t) / targetProfit t)) else 0)
   \<and> tot_profit (tracker_totals t) =
       toFixed 2
         (toFixed 2 (sum_list (map returnOr0 (filter (\<lambda>b. isSettled (status b)) (bets t))))
          - sum_list (map stake (filter (\<lambda>b. isSettled (status b)) (bets t))))
   \<and> tracker_totals (t\<lparr> filter_crit := flt \<rparr>) = tracker_totals t
   \<and> tot_profit (totals [wonBet] 100) = 150
   \<and> tot_progress (totals [wonBet] 100) = 1"
proof -
  have "tot_progress (totals [wonBet] 100) = 1"
    by (simp add: totals_progress totals_wonBet clamp01_def)
  moreover have "tracker_totals (t\<lparr> filter_crit := flt \<rparr>) = tracker_totals t"
    by (simp add: tracker_totals_def)
  moreover have p: "tot_progress (totals xs tp) =
     (if tp > 0 then max 0 (min 1 (tot_profit (totals xs tp) / tp)) else 0)" for xs tp
    by (simp only: totals_progress clamp01_def)
  moreover have "tot_progress (tracker_totals t) =
       (if targetProfit t > 0
        then max 0 (min 1 (tot_profit (tracker_totals t) / targetProfit t)) else 0)"
    unfolding tracker_totals_def by (rule p)
  moreover have "tot_profit (tracker_totals t) =
       toFixed 2
         (toFixed 2 (sum_list (map returnOr0 (filter (\<lambda>b. isSettled (status b)) (bets t))))
          - sum_list (map stake (filter (\<lambda>b. isSettled (status b)) (bets t))))"
    unfolding tracker_totals_def by (rule totals_profit)
  moreover have "tracker_totals t = totals (bets t) (targetProfit t)"
    by (rule tracker_totals_def)
  ultimately show ?thesis
    using totals_profit [of bs target] totals_wonBet by blast
qed

lemma tennis_filter_sample: "filteredBets tennisCriteria (bets sampleTracker) = [seedPending]"
  by code_simp

theorem goal_progress_witness:
  "tot_progress (totals [wonBet, seedLost, seedPending] 100) = 1
   \<and> tot_progress (totals [wonBet, seedLost, seedPending] 290) = 1 / 2
   \<and> tot_progress (totals [seedLost] 100) = 0
   \<and> tot_progress (totals [wonBet] 0) = 0
   \<and> filteredBets tennisCriteria (bets sampleTracker) = [seedPending]
   \<and> tot_progress (totals [seedPending] 100) = 0
   \<and> tot_profit (tracker_totals (sampleTracker \<lparr> filter_crit := tennisCriteria \<rparr>)) = 145
   \<and> tot_progress (tracker_totals (sampleTracker \<lparr> filter_crit := tennisCriteria \<rparr>)) = 1"
proof -
  have p3: "tot_profit (totals [wonBet, seedLost, seedPending] tp) = 145" for tp
    by (simp add: totals_profit wonBet_fields seedLost_fields seedPending_fields
        isSettled_def toFixed_def)
  have p1: "tot_profit (totals [seedLost] tp) = -5" for tp
    by (simp add: totals_profit seedLost_fields isSettled_def toFixed_def)
  have p0: "tot_profit (totals [seedPending] tp) = 0" for tp
    by (simp add: totals_profit seedPending_fields isSettled_def toFixed_def)
  have t: "bets (sampleTracker \<lparr> filter_crit := tennisCriteria \<rparr>) = [wonBet, seedLost, seedPending]"
    "targetProfit (sampleTracker \<lparr> filter_crit := tennisCriteria \<rparr>) = 100"
    by (simp_all add: sampleTracker_def)
  show ?thesis
    using goal_progress [of "[wonBet, seedLost, seedPending]" 100
        "sampleTracker \<lparr> filter_crit := tennisCriteria \<rparr>" tennisCriteria]
      goal_progress [of "[wonBet, seedLost, seedPending]" 290]
      goal_progress [of "[seedLost]" 100] goal_progress [of "[wonBet]" 0]
      goal_progress [of "[seedPending]" 100]
    by (simp add: p3 p1 p0 t tennis_filter_sample)
qed

subsection \<open>Odds bands\<close>

lemma length_bands: "length bands = 5"
  by (simp add: bands_def)

lemma bandRow_label: "ob_band (bandRow settled band) = band_label band"
  by (simp add: bandRow_def Let_def)

lemma bandRow_bets: "ob_bets (bandRow settled band) = length (filter (withinBand band) settled)"
  by (simp add: bandRow_def Let_def)

lemma bandRow_empty:
  "filter (withinBand band) settled = [] \<Longrightarrow>
   bandRow settled band =
     \<lparr> ob_band = band_label band, ob_bets = 0, ob_wins = 0, ob_avgOdds = 0,
       ob_implied = 0, ob_winRate = 0, ob_roi = 0, ob_profit = 0 \<rparr>"
  by (simp add: bandRow_def)

lemma oddsBands_nth:
  "i < 5 \<Longrightarrow> oddsBands fb ! i = bandRow (filter (\<lambda>b. isSettled (status b)) fb) (bands ! i)"
  by (simp add: oddsBands_def length_bands)

text \<open>
  Claim C6. The odds-band table has exactly five rows for every record list, the empty
  one included, always in the order of the bands from 1.01 to 1.49, from 1.50 to 1.99,
  from 2.00 to 2.99, from 3.00 to 4.99 and from 5.00 upwards. A band that holds no
  settled record is reported with all figures zero and is not left out.
\<close>

theorem oddsBands_fixed_rows:
  "length (oddsBands fb) = 5
   \<and> map ob_band (oddsBands fb) =
       [''1.01 to 1.49'', ''1.50 to 1.99'', ''2.00 to 2.99'', ''3.00 to 4.99'', ''5.00 or more'']
   \<and> map (\<lambda>band. (band_min band, band_max band)) bands =
       [(1.01, Some 1.49), (1.5, Some 1.99), (2, Some 2.99), (3, Some 4.99), (5, None)]
   \<and> (\<forall>i<5. filter (withinBand (bands ! i)) (filter (\<lambda>b. isSettled (status b)) fb) = [] \<longrightarrow>
         oddsBands fb ! i =
           \<lparr> ob_band = band_label (bands ! i), ob_bets = 0, ob_wins = 0, ob_avgOdds = 0,
             ob_implied = 0, ob_winRate = 0, ob_roi = 0, ob_profit = 0 \<rparr>)"
proof -
  have "length (oddsBands fb) = 5"
    by (simp add: oddsBands_def length_bands)
  moreover have "map ob_band (oddsBands fb) =
       [''1.01 to 1.49'', ''1.50 to 1.99'', ''2.00 to 2.99'', ''3.00 to 4.99'', ''5.00 or more'']"
    by (simp add: oddsBands_def bandRow_label o_def) (simp add: bands_def)
  moreover have "map (\<lambda>band. (band_min band, band_max band)) bands =
       [(1.01, Some 1.49), (1.5, Some 1.99), (2, Some 2.99), (3, Some 4.99), (5, None)]"
    by (simp add: bands_def)
  moreover have "\<forall>i<5. filter (withinBand (bands ! i)) (filter (\<lambda>b. isSettled (status b)) fb) = [] \<longrightarrow>
         oddsBands fb ! i =
           \<lparr> ob_band = band_label (bands ! i), ob_bets = 0, ob_wins = 0, ob_avgOdds = 0,
             ob_implied = 0, ob_winRate = 0, ob_roi = 0, ob_profit = 0 \<rparr>"
    by (simp add: oddsBands_nth bandRow_empty)
  ultimately show ?thesis by blast
qed

lemma gapBet_fields:
  "status gapBet = Won" "oddsDecimal gapBet = 1.495"
  by (simp_all add: gapBet_def)

lemma withinBand_seedLost:
  "withinBand (bands ! 0) seedLost = False" "withinBand (bands ! 1) seedLost = True"
  by (simp_all add: bands_def withinBand_def seedLost_def)

theorem oddsBands_fixed_rows_witness:
  "oddsBands [] ! 4 =
     \<lparr> ob_band = ''5.00 or more'', ob_bets = 0, ob_wins = 0, ob_avgOdds = 0,
       ob_implied = 0, ob_winRate = 0, ob_roi = 0, ob_profit = 0 \<rparr>
   \<and> oddsBands [seedLost, seedPending] ! 0 =
     \<lparr> ob_band = ''1.01 to 1.49'', ob_bets = 0, ob_wins = 0, ob_avgOdds = 0,
       ob_implied = 0, ob_winRate = 0, ob_roi = 0, ob_profit = 0 \<rparr>
   \<and> length (oddsBands [seedLost, seedPending]) = 5"
proof -
  have b: "band_label (bands ! 4) = ''5.00 or more''" "band_label (bands ! 0) = ''1.01 to 1.49''"
    by (simp_all add: bands_def)
  have e: "filter (withinBand (bands ! 0)) (filter (\<lambda>b. isSettled (status b)) [seedLost, seedPending]) = []"
    by (simp add: withinBand_seedLost seedLost_fields seedPending_fields isSettled_def)
  show ?thesis
    using oddsBands_fixed_rows [of "[]"] oddsBands_fixed_rows [of "[seedLost, seedPending]"] e
    by (simp add: b)
qed

lemma band_count_step:
  "sum_list (map (\<lambda>band. if withinBand band b then 1 else 0) bands)
     = (if inGap (oddsDecimal b) then 0 else (1::nat))"
  by (simp add: bands_def withinBand_def inGap_def)

lemma band_counts_sum:
  "sum_list (map (\<lambda>band. length (filter (withinBand band) xs)) bands)
     = length (filter (\<lambda>b. \<not> inGap (oddsDecimal b)) xs)"
proof (induction xs)
  case Nil
  show ?case by (simp add: bands_def)
next
  case (Cons b xs)
  have "sum_list (map (\<lambda>band. length (filter (withinBand band) (b # xs))) bands)
        = sum_list (map (\<lambda>band. (if withinBand band b then 1 else 0)
                                    + length (filter (withinBand band) xs)) bands)"
    by (rule arg_cong [where f = sum_list]) (rule map_cong, simp_all)
  also have "\<dots> = sum_list (map (\<lambda>band. if withinBand band b then 1 else 0) bands)
                   + sum_list (map (\<lambda>band. length (filter (withinBand band) xs)) bands)"
    by (simp add: sum_list_addf)
  finally show ?case
    using Cons.IH by (simp add: band_count_step)
qed

lemma inGap_no_band: "inGap (oddsDecimal b) \<Longrightarrow> band \<in> set bands \<Longrightarrow> \<not> withinBand band b"
  by (auto simp: bands_def withinBand_def inGap_def)

lemma oddsBands_total:
  "sum_list (map ob_bets (oddsBands fb))
     = length (filter (\<lambda>b. \<not> inGap (oddsDecimal b)) (filter (\<lambda>b. isSettled (status b)) fb))"
  by (simp add: oddsBands_def o_def bandRow_bets band_counts_sum del: filter_filter)

lemma filter_length_less:
  "x \<in> set xs \<Longrightarrow> \<not> P x \<Longrightarrow> length (filter P xs) < length xs"
  by (metis le_neq_implies_less length_filter_le length_filter_less)

subsection \<open>Adding and editing records\<close>

lemma parse_samples:
  "toFixed 2 (parseNum decimalNumber ''0'' 0) = 0"
  "toFixed 3 (parseNum decimalNumber ''1'' 0) = 1"
  "toFixed 2 (parseNum decimalNumber ''0.004'' 0) = 0"
  "toFixed 3 (parseNum decimalNumber ''1.0004'' 0) = 1"
  "toFixed 2 (parseNum decimalNumber ''3.33'' 0) = 3.33"
  "toFixed 3 (parseNum decimalNumber ''1.495'' 0) = 1.495"
  "toFixed 2 (parseNum decimalNumber ''1.005'' 0) = 1"
  by code_simp+

lemma sample_ids:
  "bet_id wonBet = ''w1''" "bet_id seedLost = ''seed1''" "bet_id seedPending = ''seed2''"
  by (simp_all add: wonBet_def seedLost_def seedPending_def)

lemma sample_settledAt:
  "settledAt wonBet = Some ts0" "settledAt seedLost = Some ts0" "settledAt seedPending = None"
  by (simp_all add: wonBet_def seedLost_def seedPending_def)

lemma sample_odds:
  "oddsDecimal wonBet = 2.5" "oddsDecimal seedLost = 1.53" "oddsDecimal seedPending = 2.1"
  by (simp_all add: wonBet_def seedLost_def seedPending_def)

lemma sampleTracker_fields:
  "bets sampleTracker = [wonBet, seedLost, seedPending]" "lastDeleted sampleTracker = None"
  "form sampleTracker = initialForm" "editVals sampleTracker = initialEditVals"
  by (simp_all add: sampleTracker_def)

lemma saveEdit_bets:
  "bets (saveEdit toNumber now i t) =
     map (\<lambda>b. if bet_id b \<noteq> i then b
          else b\<lparr> stake := toFixed 2 (parseNum toNumber (edit_stake (editVals t)) 0),
                  oddsDecimal := toFixed 3 (parseNum toNumber (edit_oddsDecimal (editVals t)) 0),
                  status := edit_status (editVals t),
                  category := (if sport b = Football then edit_category (editVals t) else None),
                  returnOverride :=
                    (case edit_returnOverride (editVals t) of
                       None \<Rightarrow> None
                     | Some s \<Rightarrow> if s \<noteq> [] then Some (toFixed 2 (parseNum toNumber s 0)) else None),
                  settledAt :=
                    (if isSettled (status b) \<or> isSettled (edit_status (editVals t))
                     then Some now else None),
                  updatedAt := now \<rparr>) (bets t)"
  by (simp add: saveEdit_def Let_def)

lemma saveEdit_settledAt:
  "map settledAt (bets (saveEdit toNumber now i t)) =
     map (\<lambda>b. if bet_id b \<noteq> i then settledAt b
          else if isSettled (status b) \<or> isSettled (edit_status (editVals t)) then Some now
          else None) (bets t)"
  by (simp add: saveEdit_bets o_def if_distrib [of settledAt] cong: if_cong)

lemma saveEdit_status:
  "map status (bets (saveEdit toNumber now i t)) =
     map (\<lambda>b. if bet_id b \<noteq> i then status b else edit_status (editVals t)) (bets t)"
  by (simp add: saveEdit_bets o_def if_distrib [of status] cong: if_cong)

lemma saveEdit_ids: "map bet_id (bets (saveEdit toNumber now i t)) = map bet_id (bets t)"
  by (simp add: saveEdit_bets o_def if_distrib [of bet_id] cong: if_cong)

lemma saveEdit_stake:
  "map stake (bets (saveEdit toNumber now i t)) =
     map (\<lambda>b. if bet_id b \<noteq> i then stake b
          else toFixed 2 (parseNum toNumber (edit_stake (editVals t)) 0)) (bets t)"
  by (simp add: saveEdit_bets o_def if_distrib [of stake] cong: if_cong)

lemma addBet_settledAt:
  "\<not> addDisabled toNumber (form t) \<Longrightarrow>
   settledAt (hd (bets (addBet toNumber newId now t)))
     = (if isSettled (status (hd (bets (addBet toNumber newId now t)))) then Some now else None)"
  by (simp add: addBet_def Let_def)

text \<open>
  Claim C7. After an edit a record has a settlement timestamp exactly when its new status
  is Won or Lost, and a Pending record has none. The add path does so; the edit path
  stamps the record whenever the old or the new status is settled. Evaluated on the
  sample session: the seeded Lost record is edited back to Pending and keeps a
  settlement timestamp, the time of the edit.
\<close>

theorem saveEdit_pending_keeps_settledAt:
  "map bet_id (bets (saveEdit decimalNumber ts1 ''seed1'' (sampleTracker \<lparr> editVals := pendingEdit \<rparr>)))
     = [''w1'', ''seed1'', ''seed2'']
   \<and> map status (bets (saveEdit decimalNumber ts1 ''seed1'' (sampleTracker \<lparr> editVals := pendingEdit \<rparr>)))
     = [Won, Pending, Pending]
   \<and> map settledAt (bets (saveEdit decimalNumber ts1 ''seed1'' (sampleTracker \<lparr> editVals := pendingEdit \<rparr>)))
     = [Some ts0, Some ts1, None]"
  by (simp add: saveEdit_ids saveEdit_status saveEdit_settledAt sampleTracker_fields sample_ids
      sample_settledAt wonBet_fields seedLost_fields seedPending_fields isSettled_def pendingEdit_def)

lemma sampleTracker_valid: "list_all validBet (bets sampleTracker)"
  by (simp add: sampleTracker_fields validBet_def sample_odds wonBet_fields seedLost_fields
      seedPending_fields)

lemma tinyForm_fields:
  "form_description tinyForm = ''Late goal''" "form_stake tinyForm = ''0.004''"
  "form_oddsDecimal tinyForm = ''1.0004''" "form_status tinyForm = Pending"
  "form_sport tinyForm = Football" "form_returnOverride tinyForm = None"
  by (simp_all add: tinyForm_def initialForm_def)

lemma tinyForm_enabled: "\<not> addDisabled decimalNumber tinyForm"
  by code_simp

lemma addBet_head:
  "\<not> addDisabled toNumber (form t) \<Longrightarrow>
   stake (hd (bets (addBet toNumber newId now t))) = toFixed 2 (parseNum toNumber (form_stake (form t)) 0)
   \<and> oddsDecimal (hd (bets (addBet toNumber newId now t)))
       = toFixed 3 (parseNum toNumber (form_oddsDecimal (form t)) 0)
   \<and> status (hd (bets (addBet toNumber newId now t))) = form_status (form t)
   \<and> bets (addBet toNumber newId now t) = hd (bets (addBet toNumber newId now t)) # bets t"
  by (simp add: addBet_def Let_def)

text \<open>
  Claim C8. Every record has odds above 1 and a positive stake, and adding and editing
  keep it so. Evaluated on the sample session, whose records all satisfy the invariant:
  an edit with the stake text 0 is saved as it is, and an add with the stake text 0.004
  and the odds text 1.0004 passes the guard of the add form and stores the stake 0 and
  the odds 1 after rounding.
\<close>

theorem invariant_broken_by_edit_and_add:
  "list_all validBet (bets sampleTracker)
   \<and> map stake (bets (saveEdit decimalNumber ts1 ''seed2'' (sampleTracker \<lparr> editVals := zeroEdit \<rparr>)))
       = [100, 5, 0]
   \<and> \<not> list_all validBet (bets (saveEdit decimalNumber ts1 ''seed2'' (sampleTracker \<lparr> editVals := zeroEdit \<rparr>)))
   \<and> \<not> addDisabled decimalNumber tinyForm
   \<and> stake (hd (bets (addBet decimalNumber ''n1'' ts1 (sampleTracker \<lparr> form := tinyForm \<rparr>)))) = 0
   \<and> oddsDecimal (hd (bets (addBet decimalNumber ''n1'' ts1 (sampleTracker \<lparr> form := tinyForm \<rparr>)))) = 1
   \<and> \<not> list_all validBet (bets (addBet decimalNumber ''n1'' ts1 (sampleTracker \<lparr> form := tinyForm \<rparr>)))"
proof -
  let ?e = "saveEdit decimalNumber ts1 ''seed2'' (sampleTracker \<lparr> editVals := zeroEdit \<rparr>)"
  let ?a = "addBet decimalNumber ''n1'' ts1 (sampleTracker \<lparr> form := tinyForm \<rparr>)"
  have st: "map stake (bets ?e) = [100, 5, 0]"
    by (simp add: saveEdit_stake sampleTracker_fields sample_ids wonBet_fields seedLost_fields
        zeroEdit_def parse_samples)
  have "\<not> list_all validBet (bets ?e)"
  proof
    assume "list_all validBet (bets ?e)"
    then have "list_all (\<lambda>x. x > 0) (map stake (bets ?e))"
      by (simp add: list_all_iff validBet_def)
    then show False by (simp add: st)
  qed
  moreover have en: "\<not> addDisabled decimalNumber (form (sampleTracker \<lparr> form := tinyForm \<rparr>))"
    by (simp add: tinyForm_enabled)
  have h: "stake (hd (bets ?a)) = 0" "oddsDecimal (hd (bets ?a)) = 1"
      "bets ?a = hd (bets ?a) # bets (sampleTracker \<lparr> form := tinyForm \<rparr>)"
    using addBet_head [OF en, of "''n1''" ts1]
    by (simp_all add: tinyForm_fields parse_samples)
  have "\<not> list_all validBet (bets ?a)"
  proof
    assume "list_all validBet (bets ?a)"
    then have "list_all validBet (hd (bets ?a) # bets (sampleTracker \<lparr> form := tinyForm \<rparr>))"
      using h(3) by simp
    then show False by (simp add: validBet_def h(1))
  qed
  ultimately show ?thesis
    using sampleTracker_valid st tinyForm_enabled h(1,2) by blast
qed

subsection \<open>Delete and undo\<close>

lemma find_distinct:
  "distinct (map f xs) \<Longrightarrow> b \<in> set xs \<Longrightarrow> find (\<lambda>x. f x = f b) xs = Some b"
  by (induction xs) (auto simp: image_iff)

lemma mset_filter_distinct:
  "distinct (map f xs) \<Longrightarrow> b \<in> set xs \<Longrightarrow> mset (b # filter (\<lambda>x. f x \<noteq> f b) xs) = mset xs"
proof (induction xs)
  case Nil
  then show ?case by simp
next
  case (Cons a xs)
  show ?case
  proof (cases "a = b")
    case True
    with Cons.prems have "\<forall>x\<in>set xs. f x \<noteq> f b"
      by (auto simp: image_iff)
    then have "filter (\<lambda>x. f x \<noteq> f b) xs = xs"
      by (simp add: filter_id_conv)
    with True show ?thesis by simp
  next
    case False
    with Cons.prems have "b \<in> set xs" "f a \<noteq> f b" "distinct (map f xs)"
      by (auto simp: image_iff)
    with Cons.IH show ?thesis by simp
  qed
qed

text \<open>
  Claim C9. In a record list with unique identifiers, deleting a record by its identifier
  and undoing the deletion before the undo slot is emptied gives a list with exactly the
  original records: the deleted record is held in the slot unchanged, identifier
  included, and is put back at the front.
\<close>

theorem delete_undo_restores:
  assumes "distinct (map bet_id (bets t))" and "b \<in> set (bets t)"
  shows "lastDeleted (deleteBet (bet_id b) t) = Some b
    \<and> b \<notin> set (bets (deleteBet (bet_id b) t))
    \<and> bets (undoDelete (deleteBet (bet_id b) t))
        = b # filter (\<lambda>x. bet_id x \<noteq> bet_id b) (bets t)
    \<and> mset (bets (undoDelete (deleteBet (bet_id b) t))) = mset (bets t)
    \<and> set (bets (undoDelete (deleteBet (bet_id b) t))) = set (bets t)
    \<and> lastDeleted (undoDelete (deleteBet (bet_id b) t)) = None"
proof -
  have f: "find (\<lambda>x. bet_id x = bet_id b) (bets t) = Some b"
    using assms by (rule find_distinct)
  have l: "lastDeleted (deleteBet (bet_id b) t) = Some b"
    by (simp add: deleteBet_def f)
  have d: "bets (deleteBet (bet_id b) t) = filter (\<lambda>x. bet_id x \<noteq> bet_id b) (bets t)"
    by (simp add: deleteBet_def)
  have u: "bets (undoDelete (deleteBet (bet_id b) t))
        = b # filter (\<lambda>x. bet_id x \<noteq> bet_id b) (bets t)"
    by (simp add: undoDelete_def l d)
  have m: "mset (bets (undoDelete (deleteBet (bet_id b) t))) = mset (bets t)"
    using assms by (simp only: u mset_filter_distinct)
  have "set (bets (undoDelete (deleteBet (bet_id b) t))) = set (bets t)"
    using m by (rule mset_eq_setD)
  moreover have "lastDeleted (undoDelete (deleteBet (bet_id b) t)) = None"
    by (simp add: undoDelete_def l)
  moreover have "b \<notin> set (bets (deleteBet (bet_id b) t))"
    by (simp add: d)
  ultimately show ?thesis
    using l u m by blast
qed

theorem delete_undo_restores_witness:
  "distinct (map bet_id (bets sampleTracker)) \<and> seedLost \<in> set (bets sampleTracker)
   \<and> lastDeleted (deleteBet ''seed1'' sampleTracker) = Some seedLost
   \<and> bets (deleteBet ''seed1'' sampleTracker) = [wonBet, seedPending]
   \<and> bets (undoDelete (deleteBet ''seed1'' sampleTracker)) = [seedLost, wonBet, seedPending]
   \<and> set (bets (undoDelete (deleteBet ''seed1'' sampleTracker))) = set (bets sampleTracker)"
proof -
  have d: "distinct (map bet_id (bets sampleTracker))"
    by (simp add: sampleTracker_fields sample_ids)
  have i: "seedLost \<in> set (bets sampleTracker)"
    by (simp add: sampleTracker_fields)
  have del: "bets (deleteBet ''seed1'' sampleTracker) = [wonBet, seedPending]"
    by (simp add: deleteBet_def sampleTracker_fields sample_ids)
  show ?thesis
    using delete_undo_restores [OF d i] d i del
    by (auto simp add: sample_ids sampleTracker_fields)
qed

text \<open>Once the undo window has passed, the slot is empty and undo restores nothing.\<close>

lemma undo_after_expiry: "undoDelete (undoExpired (deleteBet i t)) = undoExpired (deleteBet i t)"
  by (simp add: undoDelete_def undoExpired_def)

subsection \<open>Odds that fall between the bands\<close>

lemma gapForm_fields:
  "form_description gapForm = ''Set betting''" "form_stake gapForm = ''3.33''"
  "form_oddsDecimal gapForm = ''1.495''" "form_status gapForm = Won"
  "form_sport gapForm = Tennis" "form_returnOverride gapForm = None"
  by (simp_all add: gapForm_def initialForm_def)

lemma gapForm_enabled: "\<not> addDisabled decimalNumber gapForm"
  by code_simp

text \<open>
  Claim C10. The five bands do not cover all odds. A settled record whose odds lie below
  1.01 or strictly between two neighbouring bands is counted in no band; the band counts
  add up to the number of settled records outside these gaps, so they add up to less
  than the number of settled records as soon as one settled record lies in a gap. Such
  odds can be entered: the add form stores the odds 1.495 as they are.
\<close>

theorem oddsBands_gaps:
  "(inGap (oddsDecimal b) \<longrightarrow> (\<forall>band\<in>set bands. \<not> withinBand band b))
   \<and> sum_list (map ob_bets (oddsBands fb))
       = length (filter (\<lambda>b. \<not> inGap (oddsDecimal b)) (filter (\<lambda>b. isSettled (status b)) fb))
   \<and> ((\<exists>b\<in>set fb. isSettled (status b) \<and> inGap (oddsDecimal b)) \<longrightarrow>
        sum_list (map ob_bets (oddsBands fb)) < length (filter (\<lambda>b. isSettled (status b)) fb))
   \<and> oddsDecimal (hd (bets (addBet decimalNumber newId now (sampleTracker \<lparr> form := gapForm \<rparr>))))
       = 1.495
   \<and> status (hd (bets (addBet decimalNumber newId now (sampleTracker \<lparr> form := gapForm \<rparr>))))
       = Won"
proof -
  have "\<not> addDisabled decimalNumber (form (sampleTracker \<lparr> form := gapForm \<rparr>))"
    by (simp add: gapForm_enabled)
  from addBet_head [OF this, of newId now]
  have a: "oddsDecimal (hd (bets (addBet decimalNumber newId now (sampleTracker \<lparr> form := gapForm \<rparr>))))
       = 1.495"
    "status (hd (bets (addBet decimalNumber newId now (sampleTracker \<lparr> form := gapForm \<rparr>))))
       = Won"
    by (simp_all add: gapForm_fields parse_samples)
  have "sum_list (map ob_bets (oddsBands fb)) < length (filter (\<lambda>b. isSettled (status b)) fb)"
    if "\<exists>b\<in>set fb. isSettled (status b) \<and> inGap (oddsDecimal b)"
  proof -
    from that obtain g where g: "g \<in> set fb" "isSettled (status g)" "inGap (oddsDecimal g)"
      by blast
    then have "g \<in> set (filter (\<lambda>b. isSettled (status b)) fb)"
      by simp
    then have "length (filter (\<lambda>b. \<not> inGap (oddsDecimal b)) (filter (\<lambda>b. isSettled (status b)) fb))
               < length (filter (\<lambda>b. isSettled (status b)) fb)"
      using g(3) by (intro filter_length_less [of g]) simp_all
    then show ?thesis
      by (simp only: oddsBands_total)
  qed
  then show ?thesis
    using inGap_no_band [of b] oddsBands_total [of fb] a by blast
qed

theorem oddsBands_gaps_witness:
  "inGap (oddsDecimal gapBet) \<and> isSettled (status gapBet)
   \<and> \<not> (\<exists>band\<in>set bands. withinBand band gapBet)
   \<and> sum_list (map ob_bets (oddsBands [gapBet, seedLost])) = 1
   \<and> length (filter (\<lambda>b. isSettled (status b)) [gapBet, seedLost]) = 2"
proof -
  have g: "inGap (oddsDecimal gapBet)" "isSettled (status gapBet)"
    by (simp_all add: gapBet_fields inGap_def isSettled_def)
  have l: "\<not> inGap (oddsDecimal seedLost)" "isSettled (status seedLost)"
    by (simp_all add: seedLost_def inGap_def isSettled_def)
  show ?thesis
    using oddsBands_gaps [of gapBet "[gapBet, seedLost]"] g l by simp
qed

subsection \<open>Filters\<close>

lemma includes_str_iff: "includes_str t q \<longleftrightarrow> (\<exists>ps ss. t = ps @ q @ ss)"
proof (induction t)
  case Nil
  show ?case by auto
next
  case (Cons c cs)
  have pre: "take (length q) (c # cs) = q \<longleftrightarrow> (\<exists>ss. c # cs = q @ ss)"
    by (metis append_eq_conv_conj append_take_drop_id)
  have "(\<exists>ps ss. c # cs = ps @ q @ ss) \<longleftrightarrow>
        (\<exists>ss. c # cs = q @ ss) \<or> (\<exists>ps ss. cs = ps @ q @ ss)"
  proof
    assume "\<exists>ps ss. c # cs = ps @ q @ ss"
    then obtain ps ss where e: "c # cs = ps @ q @ ss" by blast
    show "(\<exists>ss. c # cs = q @ ss) \<or> (\<exists>ps ss. cs = ps @ q @ ss)"
    proof (cases ps)
      case Nil
      with e show ?thesis by auto
    next
      case (Cons p ps')
      with e have "cs = ps' @ q @ ss" by simp
      then show ?thesis by blast
    qed
  next
    assume "(\<exists>ss. c # cs = q @ ss) \<or> (\<exists>ps ss. cs = ps @ q @ ss)"
    then show "\<exists>ps ss. c # cs = ps @ q @ ss"
    proof
      assume "\<exists>ss. c # cs = q @ ss"
      then obtain ss where "c # cs = [] @ q @ ss" by auto
      then show ?thesis by blast
    next
      assume "\<exists>ps ss. cs = ps @ q @ ss"
      then obtain ps ss where "c # cs = (c # ps) @ q @ ss" by auto
      then show ?thesis by blast
    qed
  qed
  with pre Cons.IH show ?case by simp
qed

lemma set_sort_desc_key [simp]: "set (sort_desc_key f xs) = set xs"
  by (simp add: sort_desc_key_def)

lemma mset_sort_desc_key [simp]: "mset (sort_desc_key f xs) = mset xs"
  by (simp add: sort_desc_key_def)

lemma passes_iff:
  "passes flt b \<longleftrightarrow>
     (case flt_sport flt of None \<Rightarrow> True | Some s \<Rightarrow> sport b = s)
     \<and> (case flt_status flt of None \<Rightarrow> True | Some s \<Rightarrow> status b = s)
     \<and> (case flt_from flt of None \<Rightarrow> True | Some d \<Rightarrow> d = [] \<or> d \<le> date b)
     \<and> (case flt_to flt of None \<Rightarrow> True | Some d \<Rightarrow> d = [] \<or> date b \<le> d)"
  by (auto simp: passes_def truthy_def split: option.splits)

lemma passes_insights_iff:
  "passes_insights flt b \<longleftrightarrow>
     (case flt_sport flt of None \<Rightarrow> True | Some s \<Rightarrow> sport b = s)
     \<and> (case flt_from flt of None \<Rightarrow> True | Some d \<Rightarrow> d = [] \<or> d \<le> date b)
     \<and> (case flt_to flt of None \<Rightarrow> True | Some d \<Rightarrow> d = [] \<or> date b \<le> d)"
  by (auto simp: passes_insights_def truthy_def split: option.splits)

lemma passes_search_passes:
  "passes_search flt b \<longleftrightarrow>
     passes flt b
     \<and> (trim (flt_search flt) = []
        \<or> includes_str (toLowerCase (description b @ '' '' @ sportName (sport b) @ '' ''
                                      @ statusName (status b)))
             (toLowerCase (flt_search flt)))"
  by (auto simp: passes_search_def passes_def Let_def)

lemma passes_default:
  "passes defaultCriteria b" "passes_search defaultCriteria b" "passes_insights defaultCriteria b"
  by (simp_all add: passes_search_passes passes_iff passes_insights_iff defaultCriteria_def trim_def)

lemma sample_filter_fields:
  "sport wonBet = Football" "sport seedLost = Football" "sport seedPending = Tennis"
  "date wonBet = ''2025-02-14''" "date seedLost = ''2025-03-01''" "date seedPending = ''2025-03-01''"
  by (simp_all add: wonBet_def seedLost_def seedPending_def)

lemma sample_distinct: "wonBet \<noteq> seedLost" "wonBet \<noteq> seedPending" "seedLost \<noteq> seedPending"
  using sample_ids by auto


lemma isWhiteSpace_codes:
  "isWhiteSpace c \<longleftrightarrow> of_char c \<in> {9, 10, 11, 12, 13, 32, 160 :: nat}"
  by (auto simp: isWhiteSpace_def Let_def)

lemma trim_empty_iff: "trim s = [] \<longleftrightarrow> (\<forall>c\<in>set s. isWhiteSpace c)"
proof
  assume "trim s = []"
  then have "dropWhile isWhiteSpace (rev (dropWhile isWhiteSpace s)) = []"
    by (simp add: trim_def)
  then have "\<forall>c\<in>set (rev (dropWhile isWhiteSpace s)). isWhiteSpace c"
    by (simp only: dropWhile_eq_Nil_conv)
  then have all: "\<forall>c\<in>set (dropWhile isWhiteSpace s). isWhiteSpace c"
    by (simp only: set_rev)
  have "dropWhile isWhiteSpace s = []"
  proof (rule ccontr)
    assume ne: "dropWhile isWhiteSpace s \<noteq> []"
    then have "\<not> isWhiteSpace (hd (dropWhile isWhiteSpace s))"
      by (rule hd_dropWhile)
    moreover have "hd (dropWhile isWhiteSpace s) \<in> set (dropWhile isWhiteSpace s)"
      using ne by (rule hd_in_set)
    ultimately show False using all by blast
  qed
  then show "\<forall>c\<in>set s. isWhiteSpace c"
    by (simp only: dropWhile_eq_Nil_conv)
next
  assume "\<forall>c\<in>set s. isWhiteSpace c"
  then have d: "dropWhile isWhiteSpace s = []"
    by (simp only: dropWhile_eq_Nil_conv)
  show "trim s = []"
    unfolding trim_def d by simp
qed

lemma toLowerChar_code:
  "(of_char (toLowerChar c) :: nat) =
     (if (65 \<le> (of_char c :: nat) \<and> (of_char c :: nat) \<le> 90)
         \<or> (192 \<le> (of_char c :: nat) \<and> (of_char c :: nat) \<le> 222 \<and> (of_char c :: nat) \<noteq> 215)
      then of_char c + 32 else of_char c)"
  using nat_of_char_less_256 [of c] by (auto simp: toLowerChar_def Let_def)

lemma char_eq_code: "c = d \<longleftrightarrow> (of_char c :: nat) = of_char d"
  by simp

lemma toLowerChar_eq_iff: "toLowerChar c = toLowerChar d \<longleftrightarrow> sameIgnoringCase c d"
  unfolding char_eq_code [of "toLowerChar c" "toLowerChar d"] toLowerChar_code
    sameIgnoringCase_def Let_def char_eq_code [of c d]
  by auto

lemma toLowerCase_eq_iff:
  "toLowerCase m = toLowerCase q \<longleftrightarrow> list_all2 sameIgnoringCase m q"
proof (induction m arbitrary: q)
  case Nil
  show ?case by (auto simp: toLowerCase_def)
next
  case (Cons c m)
  show ?case
  proof (cases q)
    case Nil
    then show ?thesis by (simp add: toLowerCase_def)
  next
    case (Cons d q')
    then show ?thesis
      using Cons.IH [of q'] by (simp add: toLowerCase_def toLowerChar_eq_iff)
  qed
qed

lemma toLowerCase_occurs_iff:
  "(\<exists>ps ss. toLowerCase t = ps @ toLowerCase q @ ss)
   \<longleftrightarrow> (\<exists>ps m ss. t = ps @ m @ ss \<and> list_all2 sameIgnoringCase m q)"
proof
  assume "\<exists>ps ss. toLowerCase t = ps @ toLowerCase q @ ss"
  then obtain ps ss where "map toLowerChar t = ps @ toLowerCase q @ ss"
    by (auto simp: toLowerCase_def)
  then obtain ps' r where r: "t = ps' @ r" "map toLowerChar r = toLowerCase q @ ss"
    by (metis map_eq_append_conv)
  then obtain m ss' where m: "r = m @ ss'" "map toLowerChar m = toLowerCase q"
    by (metis map_eq_append_conv)
  then have "list_all2 sameIgnoringCase m q"
    by (simp add: toLowerCase_eq_iff [symmetric] toLowerCase_def)
  with r(1) m(1) show "\<exists>ps m ss. t = ps @ m @ ss \<and> list_all2 sameIgnoringCase m q"
    by blast
next
  assume "\<exists>ps m ss. t = ps @ m @ ss \<and> list_all2 sameIgnoringCase m q"
  then obtain ps m ss where t: "t = ps @ m @ ss" and "list_all2 sameIgnoringCase m q"
    by blast
  then have "toLowerCase m = toLowerCase q"
    by (simp add: toLowerCase_eq_iff)
  then have "toLowerCase t = toLowerCase ps @ toLowerCase q @ toLowerCase ss"
    by (simp add: t toLowerCase_def)
  then show "\<exists>ps ss. toLowerCase t = ps @ toLowerCase q @ ss"
    by blast
qed

text \<open>
  Claim C4. A record is in the output of a filter exactly when it is in the record list
  and meets every criterion that is set: the sport, the status, the inclusive lower and
  upper date, and the search text, which must occur, letter case ignored, in the
  description, sport and status joined by spaces. A criterion that is absent (\<open>All\<close>, a
  missing or empty date, a search text of white space only) constrains nothing, so the
  default filter returns all records. This holds for both ledger filters; the insights
  filter has the sport and the two dates only.
\<close>

theorem filter_membership:
  "(b \<in> set (filteredBets_search flt bs) \<longleftrightarrow>
      b \<in> set bs
      \<and> (case flt_sport flt of None \<Rightarrow> True | Some s \<Rightarrow> sport b = s)
      \<and> (case flt_status flt of None \<Rightarrow> True | Some s \<Rightarrow> status b = s)
      \<and> (case flt_from flt of None \<Rightarrow> True | Some d \<Rightarrow> d = [] \<or> d \<le> date b)
      \<and> (case flt_to flt of None \<Rightarrow> True | Some d \<Rightarrow> d = [] \<or> date b \<le> d)
      \<and> ((\<forall>c\<in>set (flt_search flt). of_char c \<in> {9, 10, 11, 12, 13, 32, 160 :: nat})
         \<or> (\<exists>ps m ss. description b @ '' '' @ sportName (sport b) @ '' '' @ statusName (status b)
                         = ps @ m @ ss
                       \<and> list_all2 sameIgnoringCase m (flt_search flt))))
   \<and> (b \<in> set (filteredBets flt bs) \<longleftrightarrow>
      b \<in> set bs
      \<and> (case flt_sport flt of None \<Rightarrow> True | Some s \<Rightarrow> sport b = s)
      \<and> (case flt_status flt of None \<Rightarrow> True | Some s \<Rightarrow> status b = s)
      \<and> (case flt_from flt of None \<Rightarrow> True | Some d \<Rightarrow> d = [] \<or> d \<le> date b)
      \<and> (case flt_to flt of None \<Rightarrow> True | Some d \<Rightarrow> d = [] \<or> date b \<le> d))
   \<and> (b \<in> set (filteredBets_insights flt bs) \<longleftrightarrow>
      b \<in> set bs
      \<and> (case flt_sport flt of None \<Rightarrow> True | Some s \<Rightarrow> sport b = s)
      \<and> (case flt_from flt of None \<Rightarrow> True | Some d \<Rightarrow> d = [] \<or> d \<le> date b)
      \<and> (case flt_to flt of None \<Rightarrow> True | Some d \<Rightarrow> d = [] \<or> date b \<le> d))
   \<and> mset (filteredBets_search defaultCriteria bs) = mset bs
   \<and> mset (filteredBets defaultCriteria bs) = mset bs
   \<and> filteredBets_insights defaultCriteria bs = bs"
proof -
  have 1: "b \<in> set (filteredBets_search flt bs) \<longleftrightarrow> b \<in> set bs \<and> passes_search flt b"
    by (simp add: filteredBets_search_def)
  have 2: "b \<in> set (filteredBets flt bs) \<longleftrightarrow> b \<in> set bs \<and> passes flt b"
    by (simp add: filteredBets_def)
  have 3: "b \<in> set (filteredBets_insights flt bs) \<longleftrightarrow> b \<in> set bs \<and> passes_insights flt b"
    by (simp add: filteredBets_insights_def)
  have 4: "mset (filteredBets_search defaultCriteria bs) = mset bs"
    by (simp add: filteredBets_search_def passes_default)
  have 5: "mset (filteredBets defaultCriteria bs) = mset bs"
    by (simp add: filteredBets_def passes_default)
  have 6: "filteredBets_insights defaultCriteria bs = bs"
    by (simp add: filteredBets_insights_def passes_default)
  have 7: "(\<forall>c\<in>set (flt_search flt). of_char c \<in> {9, 10, 11, 12, 13, 32, 160 :: nat})
           \<longleftrightarrow> trim (flt_search flt) = []"
    by (simp only: trim_empty_iff isWhiteSpace_codes)
  show ?thesis
    unfolding 1 2 3 4 5 6 7 passes_search_passes passes_iff passes_insights_iff includes_str_iff
      toLowerCase_occurs_iff
    by blast
qed

lemma search_samples:
  "filteredBets_search bttsCriteria [wonBet, seedLost, seedPending] = [seedLost]"
  "filteredBets_search (defaultCriteria \<lparr> flt_search := ''btts'' \<rparr>) [wonBet, seedLost, seedPending]
     = [seedLost]"
  "filteredBets_search (defaultCriteria \<lparr> flt_search := ''WINNER tennis PEND'' \<rparr>)
     [wonBet, seedLost, seedPending] = [seedPending]"
  "filteredBets_search (defaultCriteria \<lparr> flt_search := '' chelsea'' \<rparr>) [wonBet, seedLost, seedPending]
     = []"
  "filteredBets_search (defaultCriteria \<lparr> flt_search := [CHR 0x20, CHR 0x09, CHR 0xA0] \<rparr>)
     [wonBet, seedLost, seedPending] = [seedLost, seedPending, wonBet]"
  "toLowerCase [CHR 0x43, CHR 0x41, CHR 0x46, CHR 0xC9, CHR 0xD7, CHR 0xDF]
     = [CHR 0x63, CHR 0x61, CHR 0x66, CHR 0xE9, CHR 0xD7, CHR 0xDF]"
  "trim [CHR 0xA0, CHR 0x61, CHR 0x20, CHR 0x62, CHR 0x0A] = [CHR 0x61, CHR 0x20, CHR 0x62]"
  by code_simp+

theorem filter_membership_witness:
  "seedPending \<in> set (filteredBets_search tennisCriteria [wonBet, seedLost, seedPending])
   \<and> seedLost \<notin> set (filteredBets_search tennisCriteria [wonBet, seedLost, seedPending])
   \<and> wonBet \<notin> set (filteredBets_insights tennisCriteria [wonBet, seedLost, seedPending])
   \<and> seedPending \<in> set (filteredBets tennisCriteria [wonBet, seedLost, seedPending])
   \<and> set (filteredBets_search defaultCriteria [wonBet, seedLost, seedPending])
       = {wonBet, seedLost, seedPending}
   \<and> filteredBets_search bttsCriteria [wonBet, seedLost, seedPending] = [seedLost]
   \<and> filteredBets_search (defaultCriteria \<lparr> flt_search := ''btts'' \<rparr>)
        [wonBet, seedLost, seedPending] = [seedLost]
   \<and> filteredBets_search (defaultCriteria \<lparr> flt_search := ''WINNER tennis PEND'' \<rparr>)
        [wonBet, seedLost, seedPending] = [seedPending]
   \<and> filteredBets_search (defaultCriteria \<lparr> flt_search := '' chelsea'' \<rparr>)
        [wonBet, seedLost, seedPending] = []
   \<and> filteredBets_search (defaultCriteria \<lparr> flt_search := [CHR 0x20, CHR 0x09, CHR 0xA0] \<rparr>)
        [wonBet, seedLost, seedPending] = [seedLost, seedPending, wonBet]"
proof -
  have t: "flt_sport tennisCriteria = Some Tennis" "flt_status tennisCriteria = None"
    "flt_from tennisCriteria = Some ''2025-02-01''" "flt_to tennisCriteria = Some ''2025-03-31''"
    "flt_search tennisCriteria = []"
    by (simp_all add: tennisCriteria_def)
  have "set (filteredBets_search defaultCriteria [wonBet, seedLost, seedPending])
       = {wonBet, seedLost, seedPending}"
    using filter_membership [of wonBet defaultCriteria "[wonBet, seedLost, seedPending]"]
      mset_eq_setD [of "filteredBets_search defaultCriteria [wonBet, seedLost, seedPending]"
        "[wonBet, seedLost, seedPending]"]
    by simp
  then show ?thesis
    using filter_membership [of seedPending tennisCriteria "[wonBet, seedLost, seedPending]"]
      filter_membership [of seedLost tennisCriteria "[wonBet, seedLost, seedPending]"]
      filter_membership [of wonBet tennisCriteria "[wonBet, seedLost, seedPending]"]
    by (simp add: t sample_filter_fields search_samples)
qed

subsection \<open>Amounts with two decimal places\<close>

lemma twoPlaces_iff: "twoPlaces x \<longleftrightarrow> (\<exists>k::int. x = of_int k / 100)"
proof
  assume "twoPlaces x"
  then show "\<exists>k::int. x = of_int k / 100"
    using toFixed2_cents [of x] by (simp add: twoPlaces_def)
next
  assume "\<exists>k::int. x = of_int k / 100"
  then obtain k :: int where "x = of_int k / 100" by blast
  then show "twoPlaces x"
    by (simp only: twoPlaces_def toFixed2_of_int)
qed

lemma twoPlaces_toFixed [simp]: "twoPlaces (toFixed 2 x)"
  using toFixed2_cents [of x] by (simp add: twoPlaces_iff)

lemma twoPlaces_0 [simp]: "twoPlaces 0"
  by (simp add: twoPlaces_def toFixed_def)

lemma twoPlaces_add: "twoPlaces x \<Longrightarrow> twoPlaces y \<Longrightarrow> twoPlaces (x + y)"
proof -
  assume "twoPlaces x" "twoPlaces y"
  then obtain k l :: int where "x = of_int k / 100" "y = of_int l / 100"
    by (auto simp: twoPlaces_iff)
  then have "x + y = of_int (k + l) / 100"
    by (simp add: add_divide_distrib)
  then show ?thesis
    unfolding twoPlaces_iff by blast
qed

lemma twoPlaces_diff: "twoPlaces x \<Longrightarrow> twoPlaces y \<Longrightarrow> twoPlaces (x - y)"
proof -
  assume "twoPlaces x" "twoPlaces y"
  then obtain k l :: int where "x = of_int k / 100" "y = of_int l / 100"
    by (auto simp: twoPlaces_iff)
  then have "x - y = of_int (k - l) / 100"
    by (simp add: diff_divide_distrib)
  then show ?thesis
    unfolding twoPlaces_iff by blast
qed

lemma twoPlaces_sum_list: "(\<And>x. x \<in> set xs \<Longrightarrow> twoPlaces (f x)) \<Longrightarrow> twoPlaces (sum_list (map f xs))"
  by (induction xs) (simp_all add: twoPlaces_add)

lemma twoPlaces_returnOr0 [simp]: "twoPlaces (returnOr0 b)"
  by (simp add: returnOr0_def effectiveReturn_def defaultReturn_def split: option.split)

lemma toFixed_returns: "toFixed 2 (sum_list (map returnOr0 xs)) = sum_list (map returnOr0 xs)"
proof -
  have "twoPlaces (sum_list (map returnOr0 xs))"
    by (rule twoPlaces_sum_list) simp
  then show ?thesis
    by (simp only: twoPlaces_def)
qed

subsection \<open>Cumulative profit series\<close>

lemma sum_profitOf:
  "sum_list (map profitOf xs) = sum_list (map returnOr0 xs) - sum_list (map stake xs)"
  by (induction xs) (simp_all add: profitOf_def)

lemma sum_list_mset_cong:
  "mset xs = mset ys \<Longrightarrow> sum_list (map f xs) = (sum_list (map f ys) :: rat)"
  by (metis mset_map sum_mset_sum_list)

lemma totals_profit_sum:
  "tot_profit (totals bs target)
     = toFixed 2 (sum_list (map profitOf (filter (\<lambda>b. isSettled (status b)) bs)))"
  by (simp only: totals_profit toFixed_returns sum_profitOf)

lemma cumulative_loop_eq:
  "cumulative_loop xs r pts =
     pts @ map (\<lambda>k. \<lparr> pt_date = date (xs ! k),
                       pt_value = toFixed 2 (r + sum_list (map profitOf (take (Suc k) xs))) \<rparr>)
               [0..<length xs]"
proof (induction xs arbitrary: r pts)
  case Nil
  show ?case by simp
next
  case (Cons b xs)
  have "[0..<length (b # xs)] = 0 # map Suc [0..<length xs]"
    by (simp add: upt_conv_Cons map_Suc_upt del: upt_Suc)
  then show ?case
    by (simp add: Cons.IH Let_def profitOf_def o_def add.assoc del: upt_Suc)
qed

lemma cumulative_eq:
  "cumulative bs =
     (if settledByDate bs = [] then []
      else \<lparr> pt_date = date (hd (settledByDate bs)), pt_value = 0 \<rparr> #
        map (\<lambda>k. \<lparr> pt_date = date (settledByDate bs ! k),
                    pt_value = toFixed 2 (sum_list (map profitOf (take (Suc k) (settledByDate bs)))) \<rparr>)
            [0..<length (settledByDate bs)])"
proof (cases "settledByDate bs")
  case Nil
  then show ?thesis
    by (simp add: cumulative_def settledByDate_def)
next
  case (Cons a xs)
  have ne: "[0..<length (settledByDate bs)] \<noteq> []"
    using Cons by simp
  have hd0: "hd [0..<length (settledByDate bs)] = 0"
    using Cons by (simp add: upt_conv_Cons del: upt_Suc)
  have h: "hd (settledByDate bs) = settledByDate bs ! 0"
    using Cons by simp
  show ?thesis
    using ne Cons
    by (simp add: cumulative_def Let_def cumulative_loop_eq settledByDate_def [symmetric]
        hd_map hd0 h del: upt_Suc)
qed

lemma settledByDate_props:
  "sorted (map date (settledByDate bs))"
  "mset (settledByDate bs) = mset (filter (\<lambda>b. isSettled (status b)) bs)"
  "filter (\<lambda>b. date b = d) (settledByDate bs)
     = filter (\<lambda>b. date b = d) (filter (\<lambda>b. isSettled (status b)) bs)"
  by (simp_all add: settledByDate_def sort_key_stable del: filter_filter)

lemma settledByDate_nonempty:
  "\<exists>b\<in>set bs. isSettled (status b) \<Longrightarrow> settledByDate bs \<noteq> []"
proof -
  assume "\<exists>b\<in>set bs. isSettled (status b)"
  then have "mset (settledByDate bs) \<noteq> {#}"
    by (auto simp: settledByDate_props(2) filter_empty_conv)
  then show ?thesis by simp
qed

text \<open>
  Claim C2. For a record list with at least one settled record, the cumulative series is
  a zero point at the first settled date followed by one point per settled record, in
  ascending order of date with records of one date in their input order; the value of a
  point is the rounded running sum of effective return minus stake up to its record.
  So the series starts at 0, and its last value is the profit of the totals, which is
  the rounded difference of the returns and the stakes of the settled records.
\<close>

theorem cumulative_series:
  assumes "\<exists>b\<in>set bs. isSettled (status b)"
  shows "cumulative bs =
       \<lparr> pt_date = date (hd (settledByDate bs)), pt_value = 0 \<rparr> #
       map (\<lambda>k. \<lparr> pt_date = date (settledByDate bs ! k),
                   pt_value = toFixed 2 (sum_list (map profitOf (take (Suc k) (settledByDate bs)))) \<rparr>)
           [0..<length (settledByDate bs)]
    \<and> sorted (map date (settledByDate bs))
    \<and> mset (settledByDate bs) = mset (filter (\<lambda>b. isSettled (status b)) bs)
    \<and> (\<forall>d. filter (\<lambda>b. date b = d) (settledByDate bs)
            = filter (\<lambda>b. date b = d) (filter (\<lambda>b. isSettled (status b)) bs))
    \<and> pt_value (hd (cumulative bs)) = 0
    \<and> pt_value (last (cumulative bs)) = tot_profit (totals bs target)
    \<and> tot_profit (totals bs target)
        = toFixed 2 (sum_list (map returnOr0 (filter (\<lambda>b. isSettled (status b)) bs))
                     - sum_list (map stake (filter (\<lambda>b. isSettled (status b)) bs)))"
proof -
  let ?s = "settledByDate bs"
  let ?pt = "\<lambda>k. \<lparr> pt_date = date (?s ! k),
                    pt_value = toFixed 2 (sum_list (map profitOf (take (Suc k) ?s))) \<rparr>"
  have ne: "?s \<noteq> []"
    using assms by (rule settledByDate_nonempty)
  have c: "cumulative bs = \<lparr> pt_date = date (hd ?s), pt_value = 0 \<rparr> # map ?pt [0..<length ?s]"
    using ne by (simp only: cumulative_eq if_False)
  have n: "[0..<length ?s] \<noteq> []"
    using ne by simp
  have "last (cumulative bs) = ?pt (length ?s - 1)"
    using n by (simp add: c last_map del: upt_Suc)
  moreover have "take (Suc (length ?s - 1)) ?s = ?s"
    by simp
  ultimately have "pt_value (last (cumulative bs)) = toFixed 2 (sum_list (map profitOf ?s))"
    by simp
  also have "sum_list (map profitOf ?s)
             = sum_list (map profitOf (filter (\<lambda>b. isSettled (status b)) bs))"
    by (rule sum_list_mset_cong) (rule settledByDate_props)
  finally have l: "pt_value (last (cumulative bs)) = tot_profit (totals bs target)"
    by (simp only: totals_profit_sum)
  have h: "pt_value (hd (cumulative bs)) = 0"
    by (simp add: c)
  have p: "tot_profit (totals bs target)
        = toFixed 2 (sum_list (map returnOr0 (filter (\<lambda>b. isSettled (status b)) bs))
                     - sum_list (map stake (filter (\<lambda>b. isSettled (status b)) bs)))"
    by (simp only: totals_profit toFixed_returns)
  have s: "sorted (map date ?s)" "mset ?s = mset (filter (\<lambda>b. isSettled (status b)) bs)"
    "\<forall>d. filter (\<lambda>b. date b = d) ?s
           = filter (\<lambda>b. date b = d) (filter (\<lambda>b. isSettled (status b)) bs)"
    by (simp_all only: settledByDate_props simp_thms)
  show ?thesis
    using c l h p s by blast
qed

lemma cumulative_sample:
  "cumulative [wonBet, seedLost, seedPending] =
     [\<lparr> pt_date = ''2025-02-14'', pt_value = 0 \<rparr>,
      \<lparr> pt_date = ''2025-02-14'', pt_value = 150 \<rparr>,
      \<lparr> pt_date = ''2025-03-01'', pt_value = 145 \<rparr>]"
  by (simp add: cumulative_def isSettled_def wonBet_fields seedLost_fields seedPending_fields
      sample_filter_fields toFixed_def)

theorem cumulative_series_witness:
  "(\<exists>b\<in>set [wonBet, seedLost, seedPending]. isSettled (status b))
   \<and> cumulative [wonBet, seedLost, seedPending] =
     [\<lparr> pt_date = ''2025-02-14'', pt_value = 0 \<rparr>,
      \<lparr> pt_date = ''2025-02-14'', pt_value = 150 \<rparr>,
      \<lparr> pt_date = ''2025-03-01'', pt_value = 145 \<rparr>]
   \<and> tot_profit (totals [wonBet, seedLost, seedPending] 100) = 145"
proof -
  have e: "\<exists>b\<in>set [wonBet, seedLost, seedPending]. isSettled (status b)"
    by (simp add: wonBet_fields isSettled_def)
  show ?thesis
    using cumulative_series [OF e, of 100] e
    by (simp add: cumulative_sample)
qed

subsection \<open>Settled profit of the key metrics\<close>

lemma metrics_profit:
  "met_profit (metrics fb) =
     toFixed 2 (toFixed 2 (sum_list (map returnOr0 (filter (\<lambda>b. isSettled (status b)) fb)))
                - toFixed 2 (sum_list (map stake (filter (\<lambda>b. isSettled (status b)) fb))))"
  unfolding metrics_def Let_def by (simp add: foldl_plus_sum_list)

lemma twoPlaces_profitOf: "twoPlaces (stake b) \<Longrightarrow> twoPlaces (profitOf b)"
  by (simp add: profitOf_def twoPlaces_diff)

lemma metrics_profit_exact:
  assumes "\<forall>b\<in>set fb. twoPlaces (stake b)"
  shows "met_profit (metrics fb) = sum_list (map profitOf (filter (\<lambda>b. isSettled (status b)) fb))"
proof -
  let ?s = "filter (\<lambda>b. isSettled (status b)) fb"
  have st: "twoPlaces (sum_list (map stake ?s))"
    using assms by (intro twoPlaces_sum_list) simp
  have "twoPlaces (sum_list (map profitOf ?s))"
    using assms by (intro twoPlaces_sum_list twoPlaces_profitOf) simp
  then have "toFixed 2 (sum_list (map returnOr0 ?s) - sum_list (map stake ?s))
             = sum_list (map profitOf ?s)"
    by (simp add: twoPlaces_def sum_profitOf)
  moreover have "toFixed 2 (sum_list (map stake ?s)) = sum_list (map stake ?s)"
    using st by (simp only: twoPlaces_def)
  ultimately show ?thesis
    by (simp only: metrics_profit toFixed_returns)
qed

lemma totals_profit_exact:
  assumes "\<forall>b\<in>set fb. twoPlaces (stake b)"
  shows "tot_profit (totals fb target) = sum_list (map profitOf (filter (\<lambda>b. isSettled (status b)) fb))"
proof -
  have "twoPlaces (sum_list (map profitOf (filter (\<lambda>b. isSettled (status b)) fb)))"
    using assms by (intro twoPlaces_sum_list twoPlaces_profitOf) simp
  then show ?thesis
    by (simp only: totals_profit_sum twoPlaces_def)
qed

subsection \<open>The grouping map\<close>

lemma map_get_in_set: "map_get m k = Some v \<Longrightarrow> (k, v) \<in> set m"
  by (induction m) (auto split: if_splits)

lemma map_get_None_iff: "map_get m k = None \<longleftrightarrow> k \<notin> fst ` set m"
  by (induction m) (auto split: if_splits)

lemma set_map_set: "set (map_set m k v) \<subseteq> insert (k, v) (set m)"
  by (induction m) (auto split: if_splits)

lemma keys_map_set:
  "map fst (map_set m k v) = (if k \<in> fst ` set m then map fst m else map fst m @ [k])"
  by (induction m) (force simp: image_iff)+

lemma stat_profit_zero [simp]: "stat_profit zeroStat = 0"
  by (simp add: zeroStat_def)

lemma profit_sum_map_set:
  "sum_list (map (\<lambda>e. stat_profit (snd e)) (map_set m k v))
     = sum_list (map (\<lambda>e. stat_profit (snd e)) m) - stat_profit (getOrZero m k) + stat_profit v"
  by (induction m) (auto simp: getOrZero_def)

lemma stat_profit_addSettled: "stat_profit (addSettled cur b) = stat_profit cur + profitOf b"
  by (simp add: addSettled_def Let_def profitOf_def)

lemma profit_sum_group_step:
  "sum_list (map (\<lambda>e. stat_profit (snd e)) (group_step keyOf b m))
     = sum_list (map (\<lambda>e. stat_profit (snd e)) m)
       + (if isSettled (status b) then profitOf b else 0)"
  by (simp add: group_step_def Let_def profit_sum_map_set stat_profit_addSettled)

lemma profit_sum_group_fold:
  "sum_list (map (\<lambda>e. stat_profit (snd e)) (fold (group_step keyOf) bs m))
     = sum_list (map (\<lambda>e. stat_profit (snd e)) m)
       + sum_list (map profitOf (filter (\<lambda>b. isSettled (status b)) bs))"
  by (induction bs arbitrary: m) (simp_all add: profit_sum_group_step)

lemma profit_sum_weekday_step:
  "sum_list (map (\<lambda>e. stat_profit (snd e)) (weekday_step getDay b m))
     = sum_list (map (\<lambda>e. stat_profit (snd e)) m)
       + (if isSettled (status b) then profitOf b else 0)"
  by (simp add: weekday_step_def Let_def profit_sum_map_set stat_profit_addSettled)

lemma profit_sum_weekday_fold:
  "sum_list (map (\<lambda>e. stat_profit (snd e)) (fold (weekday_step getDay) bs m))
     = sum_list (map (\<lambda>e. stat_profit (snd e)) m)
       + sum_list (map profitOf (filter (\<lambda>b. isSettled (status b)) bs))"
  by (induction bs arbitrary: m) (simp_all add: profit_sum_weekday_step)


lemma twoPlaces_getOrZero:
  "\<forall>e\<in>set m. twoPlaces (stat_profit (snd e)) \<Longrightarrow> twoPlaces (stat_profit (getOrZero m k))"
  by (fastforce simp: getOrZero_def split: option.split dest: map_get_in_set)

lemma twoPlaces_map_set:
  "\<forall>e\<in>set m. twoPlaces (stat_profit (snd e)) \<Longrightarrow> twoPlaces (stat_profit v) \<Longrightarrow>
   \<forall>e\<in>set (map_set m k v). twoPlaces (stat_profit (snd e))"
  using set_map_set [of m k v] by auto

lemma twoPlaces_group_step:
  assumes "\<forall>e\<in>set m. twoPlaces (stat_profit (snd e))" and "twoPlaces (stake b)"
  shows "\<forall>e\<in>set (group_step keyOf b m). twoPlaces (stat_profit (snd e))"
  unfolding group_step_def Let_def
  using assms
  by (intro twoPlaces_map_set)
     (simp_all add: twoPlaces_getOrZero stat_profit_addSettled twoPlaces_add twoPlaces_profitOf)

lemma twoPlaces_group_fold:
  "\<forall>e\<in>set m. twoPlaces (stat_profit (snd e)) \<Longrightarrow> \<forall>b\<in>set bs. twoPlaces (stake b) \<Longrightarrow>
   \<forall>e\<in>set (fold (group_step keyOf) bs m). twoPlaces (stat_profit (snd e))"
proof (induction bs arbitrary: m)
  case Nil
  then show ?case by simp
next
  case (Cons b bs)
  have "\<forall>e\<in>set (group_step keyOf b m). twoPlaces (stat_profit (snd e))"
    using Cons.prems by (intro twoPlaces_group_step) simp_all
  then show ?case
    using Cons.prems by (simp add: Cons.IH)
qed

lemma twoPlaces_weekday_step:
  assumes "\<forall>e\<in>set m. twoPlaces (stat_profit (snd e))" and "twoPlaces (stake b)"
  shows "\<forall>e\<in>set (weekday_step getDay b m). twoPlaces (stat_profit (snd e))"
proof (cases "isSettled (status b)")
  case False
  with assms show ?thesis by (simp add: weekday_step_def)
next
  case True
  have "\<forall>e\<in>set (map_set m (dayName getDay (date b))
                    (addSettled (getOrZero m (dayName getDay (date b))) b)).
          twoPlaces (stat_profit (snd e))"
    using assms
    by (intro twoPlaces_map_set)
       (simp_all add: twoPlaces_getOrZero stat_profit_addSettled twoPlaces_add twoPlaces_profitOf)
  with True show ?thesis by (simp add: weekday_step_def Let_def)
qed

lemma twoPlaces_weekday_fold:
  "\<forall>e\<in>set m. twoPlaces (stat_profit (snd e)) \<Longrightarrow> \<forall>b\<in>set bs. twoPlaces (stake b) \<Longrightarrow>
   \<forall>e\<in>set (fold (weekday_step getDay) bs m). twoPlaces (stat_profit (snd e))"
proof (induction bs arbitrary: m)
  case Nil
  then show ?case by simp
next
  case (Cons b bs)
  have "\<forall>e\<in>set (weekday_step getDay b m). twoPlaces (stat_profit (snd e))"
    using Cons.prems by (intro twoPlaces_weekday_step) simp_all
  then show ?case
    using Cons.prems by (simp add: Cons.IH)
qed

subsection \<open>Rows by sport and category\<close>

lemma row_profit_toRow: "row_profit (toRow e) = toFixed 2 (stat_profit (snd e))"
  by (cases e) (simp add: toRow_def)

lemma sum_sort_desc_key:
  "sum_list (map g (sort_desc_key f xs)) = (sum_list (map g xs) :: rat)"
  by (rule sum_list_mset_cong) simp

lemma rows_profit_sum:
  assumes "\<forall>e\<in>set m. twoPlaces (stat_profit (snd e))"
  shows "sum_list (map row_profit (sort_desc_key row_profit (map toRow m)))
         = sum_list (map (\<lambda>e. stat_profit (snd e)) m)"
proof -
  have "map row_profit (map toRow m) = map (\<lambda>e. stat_profit (snd e)) m"
    using assms by (simp add: row_profit_toRow twoPlaces_def)
  then show ?thesis
    by (simp only: sum_sort_desc_key)
qed

lemma bySport_sum:
  assumes "\<forall>b\<in>set fb. twoPlaces (stake b)"
  shows "sum_list (map row_profit (bySport fb))
         = sum_list (map profitOf (filter (\<lambda>b. isSettled (status b)) fb))"
proof -
  have "\<forall>e\<in>set (fold (group_step sport) fb []). twoPlaces (stat_profit (snd e))"
    using assms by (intro twoPlaces_group_fold) simp_all
  then show ?thesis
    by (simp add: bySport_def rows_profit_sum profit_sum_group_fold)
qed

lemma byCategory_sum:
  assumes "\<forall>b\<in>set fb. twoPlaces (stake b)"
  shows "sum_list (map row_profit (byCategory fb))
         = sum_list (map profitOf (filter (\<lambda>b. isSettled (status b))
                                     (filter (\<lambda>b. sport b = Football) fb)))"
proof -
  have "\<forall>e\<in>set (fold (group_step categoryKey) (filter (\<lambda>b. sport b = Football) fb) []).
          twoPlaces (stat_profit (snd e))"
    using assms by (intro twoPlaces_group_fold) simp_all
  then show ?thesis
    by (simp add: byCategory_def Let_def rows_profit_sum profit_sum_group_fold
        del: filter_filter)
qed

subsection \<open>Rows by weekday\<close>

lemma distinct_keys_map_set: "distinct (map fst m) \<Longrightarrow> distinct (map fst (map_set m k v))"
  by (simp add: keys_map_set)

lemma set_keys_map_set: "set (map fst (map_set m k v)) = insert k (set (map fst m))"
  by (auto simp: keys_map_set)

lemma distinct_keys_weekday_step:
  "distinct (map fst m) \<Longrightarrow> distinct (map fst (weekday_step getDay b m))"
  by (simp add: weekday_step_def Let_def distinct_keys_map_set del: map_map)

lemma set_keys_weekday_step:
  "set (map fst (weekday_step getDay b m))
     = (if isSettled (status b) then insert (dayName getDay (date b)) (set (map fst m))
        else set (map fst m))"
  by (simp add: weekday_step_def Let_def set_keys_map_set del: set_map)

lemma distinct_keys_weekday_fold:
  "distinct (map fst m) \<Longrightarrow> distinct (map fst (fold (weekday_step getDay) bs m))"
  by (induction bs arbitrary: m) (simp_all add: distinct_keys_weekday_step)

lemma set_keys_weekday_fold:
  "set (map fst (fold (weekday_step getDay) bs m))
     = set (map fst m)
       \<union> set (map (\<lambda>b. dayName getDay (date b)) (filter (\<lambda>b. isSettled (status b)) bs))"
proof (induction bs arbitrary: m)
  case Nil
  show ?case by simp
next
  case (Cons b bs)
  have "set (map fst (fold (weekday_step getDay) (b # bs) m))
        = set (map fst (weekday_step getDay b m))
          \<union> set (map (\<lambda>b. dayName getDay (date b)) (filter (\<lambda>b. isSettled (status b)) bs))"
    using Cons.IH [of "weekday_step getDay b m"] by simp
  then show ?case
    by (simp only: set_keys_weekday_step) auto
qed

lemma dayName_in_dayNames: "dayName getDay d = Some n \<Longrightarrow> n \<in> set dayNames"
  by (auto simp: dayName_def split: option.splits if_splits)

lemma distinct_dayNames: "distinct dayNames"
  by (simp add: dayNames_def)

lemma sum_list_delta:
  "distinct ks \<Longrightarrow> d \<in> set ks \<Longrightarrow> sum_list (map (\<lambda>k. if k = d then c else 0) ks) = (c::rat)"
proof (induction ks)
  case Nil
  then show ?case by simp
next
  case (Cons a ks)
  show ?case
  proof (cases "a = d")
    case True
    with Cons.prems have "d \<notin> set ks" by simp
    then have "sum_list (map (\<lambda>k. if k = d then c else 0) ks) = 0"
      by (induction ks) auto
    with True show ?thesis by simp
  next
    case False
    with Cons show ?thesis by simp
  qed
qed

lemma getOrZero_Cons:
  "getOrZero ((k0, v0) # m) k = (if k0 = k then v0 else getOrZero m k)"
  by (simp add: getOrZero_def)

lemma getOrZero_absent: "k \<notin> fst ` set m \<Longrightarrow> getOrZero m k = zeroStat"
  by (simp add: getOrZero_def map_get_None_iff [THEN iffD2])

lemma lookup_sum:
  assumes "distinct (map fst m)" and "set (map fst m) \<subseteq> Some ` set ks" and "distinct ks"
    and "F zeroStat = (0::rat)"
  shows "sum_list (map (\<lambda>day. F (getOrZero m (Some day))) ks) = sum_list (map (\<lambda>e. F (snd e)) m)"
  using assms(1,2)
proof (induction m)
  case Nil
  show ?case by (simp add: getOrZero_def assms(4))
next
  case (Cons e m)
  obtain k0 v0 where e: "e = (k0, v0)" by (cases e)
  from Cons.prems e obtain d0 where d0: "k0 = Some d0" "d0 \<in> set ks"
    by auto
  from Cons.prems e have absent: "k0 \<notin> fst ` set m"
    by auto
  have "map (\<lambda>day. F (getOrZero (e # m) (Some day))) ks
        = map (\<lambda>day. (if day = d0 then F v0 else 0) + F (getOrZero m (Some day))) ks"
    using getOrZero_absent [OF absent] d0(1)
    by (intro map_cong) (auto simp: e getOrZero_Cons assms(4))
  then have "sum_list (map (\<lambda>day. F (getOrZero (e # m) (Some day))) ks)
        = sum_list (map (\<lambda>day. (if day = d0 then F v0 else 0) + F (getOrZero m (Some day))) ks)"
    by (rule arg_cong)
  also have "\<dots> = sum_list (map (\<lambda>day. if day = d0 then F v0 else 0) ks)
          + sum_list (map (\<lambda>day. F (getOrZero m (Some day))) ks)"
    by (rule sum_list_addf)
  also have "sum_list (map (\<lambda>day. if day = d0 then F v0 else 0) ks) = F v0"
    using assms(3) d0(2) by (rule sum_list_delta)
  also have "sum_list (map (\<lambda>day. F (getOrZero m (Some day))) ks) = sum_list (map (\<lambda>e. F (snd e)) m)"
    using Cons.prems by (intro Cons.IH) auto
  finally show ?case
    by (simp add: e)
qed

lemma row_profit_weekdayRow:
  "row_profit (weekdayRow m day) = toFixed 2 (stat_profit (getOrZero m (Some day)))"
  by (simp add: weekdayRow_def Let_def)

lemma byWeekday_sum:
  assumes "\<forall>b\<in>set fb. twoPlaces (stake b)"
    and "\<forall>b\<in>set fb. isSettled (status b) \<longrightarrow> dayName getDay (date b) \<noteq> None"
  shows "sum_list (map row_profit (byWeekday getDay fb))
         = sum_list (map profitOf (filter (\<lambda>b. isSettled (status b)) fb))"
proof -
  let ?m = "fold (weekday_step getDay) fb []"
  have two: "\<forall>e\<in>set ?m. twoPlaces (stat_profit (snd e))"
    using assms(1) by (intro twoPlaces_weekday_fold) simp_all
  have dist: "distinct (map fst ?m)"
    by (rule distinct_keys_weekday_fold) simp
  have keys: "set (map fst ?m) \<subseteq> Some ` set dayNames"
  proof
    fix k assume "k \<in> set (map fst ?m)"
    then obtain b where b: "b \<in> set fb" "isSettled (status b)" "k = dayName getDay (date b)"
      unfolding set_keys_weekday_fold by auto
    with assms(2) obtain n where n: "dayName getDay (date b) = Some n"
      by auto
    then have "n \<in> set dayNames"
      by (rule dayName_in_dayNames)
    with b(3) n show "k \<in> Some ` set dayNames"
      by simp
  qed
  have "sum_list (map row_profit (byWeekday getDay fb))
        = sum_list (map (\<lambda>day. toFixed 2 (stat_profit (getOrZero ?m (Some day)))) dayNames)"
    by (simp add: byWeekday_def Let_def sum_sort_desc_key o_def row_profit_weekdayRow)
  also have "\<dots> = sum_list (map (\<lambda>e. toFixed 2 (stat_profit (snd e))) ?m)"
    using dist keys distinct_dayNames
    by (rule lookup_sum [where F = "\<lambda>v. toFixed 2 (stat_profit v)"]) (simp add: toFixed_def)
  also have "\<dots> = sum_list (map (\<lambda>e. stat_profit (snd e)) ?m)"
    using two by (intro arg_cong [where f = sum_list] map_cong) (simp_all add: twoPlaces_def)
  finally show ?thesis
    by (simp add: profit_sum_weekday_fold)
qed

subsection \<open>Sum of parts\<close>

text \<open>
  Claim C3, as amended. For a list of records whose stakes have at most two decimal
  places, the settled profit of the key metrics (and of the ledger totals) is the sum of
  the effective returns minus the sum of the stakes over the settled records. The
  profits of the rows by sport add up to it. The profits of the rows by weekday add up
  to it when the date of every settled record has a weekday. The rows by category are
  built from the Football records only, and their profits add up to the settled profit
  of the Football records.
\<close>

theorem profit_sum_of_parts:
  assumes "\<forall>b\<in>set fb. twoPlaces (stake b)"
  shows "met_profit (metrics fb)
           = sum_list (map returnOr0 (filter (\<lambda>b. isSettled (status b)) fb))
             - sum_list (map stake (filter (\<lambda>b. isSettled (status b)) fb))
    \<and> tot_profit (totals fb target) = met_profit (metrics fb)
    \<and> sum_list (map row_profit (bySport fb)) = met_profit (metrics fb)
    \<and> ((\<forall>b\<in>set fb. isSettled (status b) \<longrightarrow> dayName getDay (date b) \<noteq> None) \<longrightarrow>
         sum_list (map row_profit (byWeekday getDay fb)) = met_profit (metrics fb))
    \<and> sum_list (map row_profit (byCategory fb))
         = met_profit (metrics (filter (\<lambda>b. sport b = Football) fb))"
proof -
  have f: "\<forall>b\<in>set (filter (\<lambda>b. sport b = Football) fb). twoPlaces (stake b)"
    using assms by simp
  show ?thesis
    using metrics_profit_exact [OF assms] totals_profit_exact [OF assms, of target]
      bySport_sum [OF assms] byWeekday_sum [OF assms, of getDay] byCategory_sum [OF assms]
      metrics_profit_exact [OF f] sum_profitOf [of "filter (\<lambda>b. isSettled (status b)) fb"]
    by simp
qed

lemma gapBet_amounts: "stake gapBet = 3.33" "returnOr0 gapBet = 4.98" "sport gapBet = Tennis"
  "date gapBet = ''2025-02-20''"
  by code_simp+

lemma metrics_gapBet: "met_profit (metrics [gapBet]) = 1.65"
  by (simp add: metrics_profit gapBet_fields gapBet_amounts isSettled_def toFixed_def)

lemma byCategory_gapBet: "byCategory [gapBet] = []"
  by (simp add: byCategory_def gapBet_amounts sort_desc_key_def)

text \<open>
  The claim as stated, with the rows by category adding up to the profit of all records,
  fails on a single settled Tennis record: there is no category row, and the profit
  is 1.65.
\<close>

theorem category_rows_miss_other_sports:
  "sum_list (map row_profit (byCategory [gapBet])) \<noteq> met_profit (metrics [gapBet])"
  by (simp add: byCategory_gapBet metrics_gapBet)

lemma sample_twoPlaces:
  "twoPlaces (stake wonBet)" "twoPlaces (stake seedLost)" "twoPlaces (stake seedPending)"
  "twoPlaces (stake gapBet)"
  by (simp_all add: twoPlaces_def wonBet_fields seedLost_fields seedPending_fields
      gapBet_amounts toFixed_def)

lemma sample_dayNames:
  "dayName sampleGetDay (date wonBet) = Some ''Fri''"
  "dayName sampleGetDay (date seedLost) = Some ''Sat''"
  "dayName sampleGetDay (date gapBet) = Some ''Thu''"
  by (simp_all add: dayName_def sampleGetDay_def dayNames_def sample_filter_fields gapBet_amounts)

lemma metrics_sample:
  "met_profit (metrics [wonBet, seedLost, seedPending, gapBet]) = 146.65"
  "met_profit (metrics (filter (\<lambda>b. sport b = Football) [wonBet, seedLost, seedPending, gapBet]))
     = 145"
  by (simp_all add: metrics_profit wonBet_fields seedLost_fields seedPending_fields gapBet_fields
     gapBet_amounts sample_filter_fields isSettled_def toFixed_def)

theorem profit_sum_of_parts_witness:
  "list_all (\<lambda>b. twoPlaces (stake b)) [wonBet, seedLost, seedPending, gapBet]
   \<and> met_profit (metrics [wonBet, seedLost, seedPending, gapBet]) = 146.65
   \<and> sum_list (map row_profit (bySport [wonBet, seedLost, seedPending, gapBet])) = 146.65
   \<and> sum_list (map row_profit (byWeekday sampleGetDay [wonBet, seedLost, seedPending, gapBet]))
       = 146.65
   \<and> sum_list (map row_profit (byCategory [wonBet, seedLost, seedPending, gapBet])) = 145"
proof -
  have t: "\<forall>b\<in>set [wonBet, seedLost, seedPending, gapBet]. twoPlaces (stake b)"
    by (simp add: sample_twoPlaces)
  have d: "\<forall>b\<in>set [wonBet, seedLost, seedPending, gapBet].
             isSettled (status b) \<longrightarrow> dayName sampleGetDay (date b) \<noteq> None"
    by (simp add: sample_dayNames seedPending_fields isSettled_def)
  show ?thesis
    using profit_sum_of_parts [OF t, of 100 sampleGetDay] d
    by (simp only: metrics_sample) (simp add: sample_twoPlaces)
qed

end
